theory Spec2Isabelle
  imports Complex_Main
begin

section \<open>Currency conversion and rate caching\<close>

text \<open>
  A shallow embedding of the currency module (\<^verbatim>\<open>getExchangeRate\<close>, \<^verbatim>\<open>convertAmount\<close>,
  \<^verbatim>\<open>canMakeApiCall\<close>) and of the \<^verbatim>\<open>exchange_rates\<close> table it reads and writes.

  \<^item> A JavaScript \<^verbatim>\<open>number\<close> holding a rate or an amount is a \<^typ>\<open>real\<close>; a number
    holding milliseconds since the epoch (\<^verbatim>\<open>Date.now()\<close>) is an \<^typ>\<open>int\<close>.
  \<^item> The module-level variables \<^verbatim>\<open>exchangeRatesCache\<close> and \<^verbatim>\<open>API_CALLS\<close> and the
    database table are fields of an explicit state, passed in and returned.
  \<^item> Every clock reading, the provider's answer and the failure of a database request
    are inputs of a call, collected in an environment.
  \<^item> A thrown error is a value: the functions return \<open>error + real\<close>.
  \<^item> Every request that leaves the process (table select, table upsert, provider
    fetch) and every \<^verbatim>\<open>console.error\<close> is appended to a log in the state.
\<close>

subsection \<open>Data\<close>

datatype Currency = USD | SAR | EGP

text \<open>An entry of the in-memory cache: \<^verbatim>\<open>{ rate: number; timestamp: number }\<close>.\<close>

record cache_entry =
  rate :: real
  timestamp :: int

text \<open>
  \<^verbatim>\<open>interface ExchangeRates\<close>: a dictionary by date string, then source currency, then
  target currency.
\<close>

type_synonym ExchangeRates = "string \<rightharpoonup> (Currency \<rightharpoonup> (Currency \<rightharpoonup> cache_entry))"

text \<open>
  A row of the table \<^verbatim>\<open>exchange_rates\<close> (the columns \<^verbatim>\<open>id\<close> and \<^verbatim>\<open>created_at\<close>, which
  the module never reads, are left out). The column \<^verbatim>\<open>rate\<close> is the field \<open>db_rate\<close>,
  since \<open>rate\<close> already names the cache entry's field; \<open>updated_at\<close> is in
  milliseconds, as \<^verbatim>\<open>new Date(dbRate.updated_at).getTime()\<close> reads it.
\<close>

record db_row =
  from_currency :: Currency
  to_currency :: Currency
  date :: string
  db_rate :: real
  updated_at :: int

datatype io_event =
    DbSelect Currency Currency string
  | DbUpsert db_row
  | Fetch Currency
  | ConsoleError string

text \<open>
  The errors the module raises, by their messages, and the errors of the runtime that
  pass through it.
\<close>

datatype error =
    RateLimitExceeded          \<comment> \<open>\<^verbatim>\<open>Rate limit exceeded. Please try again later.\<close>\<close>
  | ApiError string            \<comment> \<open>\<^verbatim>\<open>API Error: ${data['error-type']}\<close>\<close>
  | NoConversionRate Currency  \<comment> \<open>\<^verbatim>\<open>No conversion rate found for ${toCurrency}\<close>\<close>
  | TypeError                  \<comment> \<open>indexing an undefined \<^verbatim>\<open>conversion_rates\<close>\<close>
  | Foreign string             \<comment> \<open>an \<^verbatim>\<open>Error\<close> raised by \<^verbatim>\<open>fetch\<close> or \<^verbatim>\<open>response.json()\<close>\<close>
  | FailedToGetExchangeRate    \<comment> \<open>\<^verbatim>\<open>Failed to get exchange rate\<close>\<close>
  | FailedToConvertAmount      \<comment> \<open>\<^verbatim>\<open>Failed to convert amount\<close>\<close>

text \<open>What a \<^verbatim>\<open>throw\<close> carries: an instance of \<^verbatim>\<open>Error\<close>, or any other value.\<close>

datatype thrown = ErrorInstance error | NotAnError

text \<open>The JSON body of the provider's answer.\<close>

record api_data =
  result :: string
  error_type :: string
  conversion_rates :: "(Currency \<rightharpoonup> real) option"

datatype fetch_outcome =
    RejectsError string   \<comment> \<open>\<^verbatim>\<open>fetch\<close> or \<^verbatim>\<open>json()\<close> rejects with an \<^verbatim>\<open>Error\<close>\<close>
  | RejectsOther          \<comment> \<open>it rejects with a value that is not an \<^verbatim>\<open>Error\<close>\<close>
  | Resolves api_data

text \<open>
  The inputs of one call that come from outside the module: the later clock readings
  (the first, \<^verbatim>\<open>const now = Date.now()\<close> of \<^verbatim>\<open>getExchangeRate\<close>, is an argument of its
  own), whether the two database requests return an error, the database's clock (read by
  the trigger \<^verbatim>\<open>update_exchange_rates_updated_at\<close>), and the provider.
\<close>

record env =
  clock_canMakeApiCall :: int   \<comment> \<open>\<^verbatim>\<open>Date.now()\<close> inside \<^verbatim>\<open>canMakeApiCall\<close>\<close>
  clock_upsert :: int           \<comment> \<open>\<^verbatim>\<open>new Date()\<close> of the upserted \<^verbatim>\<open>updated_at\<close>\<close>
  select_error :: bool
  upsert_error :: bool
  db_now :: int
  provider :: "Currency \<Rightarrow> fetch_outcome"

record state =
  exchangeRatesCache :: ExchangeRates
  API_CALLS :: "int list"
  exchange_rates :: "db_row list"
  io :: "io_event list"

definition CACHE_EXPIRATION :: int where
  "CACHE_EXPIRATION = 6 * 60 * 60 * 1000"

definition MAX_CALLS_PER_MINUTE :: nat where
  "MAX_CALLS_PER_MINUTE = 30"

definition ONE_MINUTE :: int where
  "ONE_MINUTE = 60 * 1000"

subsection \<open>The rate limiter\<close>

text \<open>
  The loop of \<^verbatim>\<open>canMakeApiCall\<close>:
  \<^verbatim>\<open>while (API_CALLS.length > 0 && now - API_CALLS[0].timestamp > ONE_MINUTE) API_CALLS.shift()\<close>.
\<close>

fun shift_expired :: "int \<Rightarrow> int list \<Rightarrow> int list" where
  "shift_expired now [] = []"
| "shift_expired now (c # cs) =
     (if now - c > ONE_MINUTE then shift_expired now cs else c # cs)"

text \<open>\<^verbatim>\<open>canMakeApiCall\<close> returns its answer and leaves \<^verbatim>\<open>API_CALLS\<close> pruned.\<close>

definition canMakeApiCall :: "int \<Rightarrow> int list \<Rightarrow> bool \<times> int list" where
  "canMakeApiCall now calls =
     (let calls' = shift_expired now calls
      in (length calls' < MAX_CALLS_PER_MINUTE, calls'))"

text \<open>
  The admission step of \<^verbatim>\<open>getExchangeRate\<close>:
  \<^verbatim>\<open>if (!canMakeApiCall()) throw ...; API_CALLS.push({ timestamp: now })\<close>.
  The check reads the clock itself (\<open>now_check\<close>); the recorded timestamp is the
  \<open>now\<close> that \<^verbatim>\<open>getExchangeRate\<close> read when it started.
\<close>

definition tryAdmit :: "int \<Rightarrow> int \<Rightarrow> int list \<Rightarrow> bool \<times> int list" where
  "tryAdmit now_check now calls =
     (case canMakeApiCall now_check calls of
        (True, calls') \<Rightarrow> (True, calls' @ [now])
      | (False, calls') \<Rightarrow> (False, calls'))"

text \<open>A run of admission attempts, each with its two clock readings \<open>(now_check, now)\<close>.\<close>

fun attempts :: "(int \<times> int) list \<Rightarrow> int list \<Rightarrow> bool list \<times> int list" where
  "attempts [] calls = ([], calls)"
| "attempts ((now_check, now) # as) calls =
     (case tryAdmit now_check now calls of
        (ok, calls') \<Rightarrow> (case attempts as calls' of (oks, calls'') \<Rightarrow> (ok # oks, calls'')))"

subsection \<open>The in-memory cache\<close>

text \<open>\<^verbatim>\<open>exchangeRatesCache[dateStr]?.[fromCurrency]?.[toCurrency]\<close>\<close>

definition cacheGet :: "ExchangeRates \<Rightarrow> string \<Rightarrow> Currency \<Rightarrow> Currency \<Rightarrow> cache_entry option" where
  "cacheGet c dateStr fromCurrency toCurrency =
     (case c dateStr of
        None \<Rightarrow> None
      | Some byFrom \<Rightarrow>
          (case byFrom fromCurrency of
             None \<Rightarrow> None
           | Some byTo \<Rightarrow> byTo toCurrency))"

text \<open>
  The cache write of both paths: the two levels are created when missing, then the entry
  is assigned.
\<close>

definition cachePut ::
  "ExchangeRates \<Rightarrow> string \<Rightarrow> Currency \<Rightarrow> Currency \<Rightarrow> cache_entry \<Rightarrow> ExchangeRates" where
  "cachePut c dateStr fromCurrency toCurrency e =
     (let byFrom = (case c dateStr of None \<Rightarrow> Map.empty | Some m \<Rightarrow> m);
          byTo = (case byFrom fromCurrency of None \<Rightarrow> Map.empty | Some m \<Rightarrow> m)
      in c(dateStr \<mapsto> byFrom(fromCurrency \<mapsto> byTo(toCurrency \<mapsto> e))))"

text \<open>
  The condition of the cache check of \<^verbatim>\<open>getExchangeRate\<close>, as a predicate: the entry is
  there, its rate is truthy (a number is falsy when it is 0), and
  \<^verbatim>\<open>now - timestamp < CACHE_EXPIRATION\<close>.
\<close>

definition cacheHit :: "ExchangeRates \<Rightarrow> int \<Rightarrow> string \<Rightarrow> Currency \<Rightarrow> Currency \<Rightarrow> bool" where
  "cacheHit c now dateStr fromCurrency toCurrency =
     (case cacheGet c dateStr fromCurrency toCurrency of
        None \<Rightarrow> False
      | Some e \<Rightarrow> rate e \<noteq> 0 \<and> now - timestamp e < CACHE_EXPIRATION)"

subsection \<open>The table \<^verbatim>\<open>exchange_rates\<close>\<close>

definition has_key :: "Currency \<Rightarrow> Currency \<Rightarrow> string \<Rightarrow> db_row \<Rightarrow> bool" where
  "has_key f t d r = (from_currency r = f \<and> to_currency r = t \<and> date r = d)"

text \<open>
  \<^verbatim>\<open>.select(...).eq(...).eq(...).eq(...).single()\<close>: the row when exactly one row matches,
  an error (no data) otherwise, and when the request itself fails.
\<close>

definition select_single ::
  "bool \<Rightarrow> db_row list \<Rightarrow> Currency \<Rightarrow> Currency \<Rightarrow> string \<Rightarrow> db_row option" where
  "select_single fails rows f t d =
     (if fails then None
      else (case filter (has_key f t d) rows of [r] \<Rightarrow> Some r | _ \<Rightarrow> None))"

text \<open>
  \<^verbatim>\<open>.upsert(row, { onConflict: 'from_currency,to_currency,date' })\<close> on a table with the
  constraint \<^verbatim>\<open>exchange_rates_currency_pair_date_unique\<close>: without a row of that key the
  row is inserted as given; with one, the row is updated, and the trigger
  \<^verbatim>\<open>update_exchange_rates_updated_at\<close> (\<^verbatim>\<open>BEFORE UPDATE ... NEW.updated_at = now()\<close>)
  replaces the given \<open>updated_at\<close> by the database's clock \<open>dbnow\<close>.
\<close>

definition upsert :: "int \<Rightarrow> db_row \<Rightarrow> db_row list \<Rightarrow> db_row list" where
  "upsert dbnow new rows =
     (if list_ex (has_key (from_currency new) (to_currency new) (date new)) rows
      then map (\<lambda>r. if has_key (from_currency new) (to_currency new) (date new) r
                     then r\<lparr>db_rate := db_rate new, updated_at := dbnow\<rparr> else r) rows
      else rows @ [new])"

text \<open>The constraint \<^verbatim>\<open>UNIQUE (from_currency, to_currency, date)\<close>.\<close>

definition key_of :: "db_row \<Rightarrow> Currency \<times> Currency \<times> string" where
  "key_of r = (from_currency r, to_currency r, date r)"

definition unique_keys :: "db_row list \<Rightarrow> bool" where
  "unique_keys rows = distinct (map key_of rows)"

subsection \<open>\<^verbatim>\<open>getExchangeRate\<close> and \<^verbatim>\<open>convertAmount\<close>\<close>

definition log_io :: "io_event \<Rightarrow> state \<Rightarrow> state" where
  "log_io ev s = s\<lparr>io := io s @ [ev]\<rparr>"

text \<open>
  The part of the \<^verbatim>\<open>try\<close> block after the admission: the provider's answer is read,
  the rate is upserted (an upsert error is only logged), the cache is written.
\<close>

definition fetchAndStore ::
  "env \<Rightarrow> int \<Rightarrow> Currency \<Rightarrow> Currency \<Rightarrow> string \<Rightarrow> state \<Rightarrow> (thrown + real) \<times> state" where
  "fetchAndStore e now fromCurrency toCurrency dateStr s0 =
     (let s1 = log_io (Fetch fromCurrency) s0 in
      case provider e fromCurrency of
        RejectsError msg \<Rightarrow> (Inl (ErrorInstance (Foreign msg)), s1)
      | RejectsOther \<Rightarrow> (Inl NotAnError, s1)
      | Resolves data \<Rightarrow>
          if result data = ''error''
          then (Inl (ErrorInstance (ApiError (error_type data))), s1)
          else (case conversion_rates data of
                  None \<Rightarrow> (Inl (ErrorInstance TypeError), s1)
                | Some rates \<Rightarrow>
                    (case rates toCurrency of
                       None \<Rightarrow> (Inl (ErrorInstance (NoConversionRate toCurrency)), s1)
                     | Some r \<Rightarrow>
                         if r = 0
                         then (Inl (ErrorInstance (NoConversionRate toCurrency)), s1)
                         else
                           let new = \<lparr>from_currency = fromCurrency, to_currency = toCurrency,
                                      date = dateStr, db_rate = r,
                                      updated_at = clock_upsert e\<rparr>;
                               s2 = log_io (DbUpsert new) s1;
                               s3 = (if upsert_error e
                                     then log_io (ConsoleError ''Error storing exchange rate:'') s2
                                     else s2\<lparr>exchange_rates :=
                                                upsert (db_now e) new (exchange_rates s2)\<rparr>);
                               s4 = s3\<lparr>exchangeRatesCache :=
                                         cachePut (exchangeRatesCache s3) dateStr fromCurrency
                                           toCurrency \<lparr>rate = r, timestamp = now\<rparr>\<rparr>
                           in (Inr r, s4))))"

text \<open>
  The admission and what follows it: a denied call throws before anything is fetched.
\<close>

definition admitAndFetch ::
  "env \<Rightarrow> int \<Rightarrow> Currency \<Rightarrow> Currency \<Rightarrow> string \<Rightarrow> state \<Rightarrow> (thrown + real) \<times> state" where
  "admitAndFetch e now fromCurrency toCurrency dateStr s1 =
     (case tryAdmit (clock_canMakeApiCall e) now (API_CALLS s1) of
        (False, calls') \<Rightarrow>
          (Inl (ErrorInstance RateLimitExceeded), s1\<lparr>API_CALLS := calls'\<rparr>)
      | (True, calls') \<Rightarrow>
          fetchAndStore e now fromCurrency toCurrency dateStr (s1\<lparr>API_CALLS := calls'\<rparr>))"

text \<open>The \<^verbatim>\<open>try\<close> block: the table first, then the limiter, then the provider.\<close>

definition tryBlock ::
  "env \<Rightarrow> int \<Rightarrow> Currency \<Rightarrow> Currency \<Rightarrow> string \<Rightarrow> state \<Rightarrow> (thrown + real) \<times> state" where
  "tryBlock e now fromCurrency toCurrency dateStr s0 =
     (let s1 = log_io (DbSelect fromCurrency toCurrency dateStr) s0
      in case select_single (select_error e) (exchange_rates s1)
                fromCurrency toCurrency dateStr of
           None \<Rightarrow> admitAndFetch e now fromCurrency toCurrency dateStr s1
         | Some dbRate \<Rightarrow>
             if now - updated_at dbRate < CACHE_EXPIRATION
             then (Inr (db_rate dbRate),
                   s1\<lparr>exchangeRatesCache :=
                        cachePut (exchangeRatesCache s1) dateStr fromCurrency toCurrency
                          \<lparr>rate = db_rate dbRate, timestamp = now\<rparr>\<rparr>)
             else admitAndFetch e now fromCurrency toCurrency dateStr s1)"

text \<open>
  The \<^verbatim>\<open>catch\<close> of \<^verbatim>\<open>getExchangeRate\<close>:
  \<^verbatim>\<open>throw error instanceof Error ? error : new Error('Failed to get exchange rate')\<close>.
\<close>

definition rethrow :: "thrown \<Rightarrow> error" where
  "rethrow x = (case x of ErrorInstance err \<Rightarrow> err | NotAnError \<Rightarrow> FailedToGetExchangeRate)"

text \<open>
  \<^verbatim>\<open>getExchangeRate(fromCurrency, toCurrency, date)\<close>. The \<^verbatim>\<open>Date\<close> argument is given by
  \<open>dateStr\<close>, its ISO day \<^verbatim>\<open>date.toISOString().split('T')[0]\<close>, the only thing the
  function reads of it. The cache check comes before the \<^verbatim>\<open>try\<close>; \<open>tryCatch\<close> is the
  \<^verbatim>\<open>try\<close> block under its \<^verbatim>\<open>catch\<close>.
\<close>

definition tryCatch ::
  "env \<Rightarrow> int \<Rightarrow> Currency \<Rightarrow> Currency \<Rightarrow> string \<Rightarrow> state \<Rightarrow> (error + real) \<times> state" where
  "tryCatch e now fromCurrency toCurrency dateStr s =
     (case tryBlock e now fromCurrency toCurrency dateStr s of
        (Inl x, s') \<Rightarrow>
          (Inl (rethrow x), log_io (ConsoleError ''Error getting exchange rate:'') s')
      | (Inr r, s') \<Rightarrow> (Inr r, s'))"

definition getExchangeRate ::
  "env \<Rightarrow> int \<Rightarrow> Currency \<Rightarrow> Currency \<Rightarrow> string \<Rightarrow> state \<Rightarrow> (error + real) \<times> state" where
  "getExchangeRate e now fromCurrency toCurrency dateStr s =
     (if fromCurrency = toCurrency then (Inr 1, s)
      else (case cacheGet (exchangeRatesCache s) dateStr fromCurrency toCurrency of
              None \<Rightarrow> tryCatch e now fromCurrency toCurrency dateStr s
            | Some c \<Rightarrow>
                if rate c \<noteq> 0 \<and> now - timestamp c < CACHE_EXPIRATION
                then (Inr (rate c), s)
                else tryCatch e now fromCurrency toCurrency dateStr s))"

text \<open>\<^verbatim>\<open>convertAmount(amount, fromCurrency, toCurrency, date)\<close>\<close>

definition convertAmount ::
  "env \<Rightarrow> int \<Rightarrow> real \<Rightarrow> Currency \<Rightarrow> Currency \<Rightarrow> string \<Rightarrow> state \<Rightarrow> (error + real) \<times> state" where
  "convertAmount e now amount fromCurrency toCurrency dateStr s =
     (case getExchangeRate e now fromCurrency toCurrency dateStr s of
        (Inl err, s') \<Rightarrow>
          (Inl FailedToConvertAmount, log_io (ConsoleError ''Error converting amount:'') s')
      | (Inr r, s') \<Rightarrow> (Inr (amount * r), s'))"

text \<open>A sequence of calls of \<^verbatim>\<open>getExchangeRate\<close>, each with its own inputs.\<close>

type_synonym call = "env \<times> int \<times> Currency \<times> Currency \<times> string"

fun run :: "call list \<Rightarrow> state \<Rightarrow> state" where
  "run [] s = s"
| "run ((e, now, f, t, d) # cs) s = run cs (snd (getExchangeRate e now f t d s))"

text \<open>The state when the module is loaded, over a table with the given rows.\<close>

definition initial :: "db_row list \<Rightarrow> state" where
  "initial rows = \<lparr>exchangeRatesCache = Map.empty, API_CALLS = [], exchange_rates = rows, io = []\<rparr>"

subsection \<open>Concrete inputs\<close>

text \<open>A provider that answers any base currency with the rate 3.75 for SAR.\<close>

definition provider_SAR :: "Currency \<Rightarrow> fetch_outcome" where
  "provider_SAR base =
     Resolves \<lparr>result = ''success'', error_type = [], conversion_rates = Some [SAR \<mapsto> 3.75]\<rparr>"

text \<open>
  An environment in which every clock reads \<open>clock\<close>, the database answers, and the
  provider is \<open>provider_SAR\<close>.
\<close>

definition quiet_env :: "int \<Rightarrow> env" where
  "quiet_env clock =
     \<lparr>clock_canMakeApiCall = clock, clock_upsert = clock, select_error = False,
      upsert_error = False, db_now = clock, provider = provider_SAR\<rparr>"

text \<open>Thirty-one attempts, 300 ms apart, from \<open>1000\<close> to \<open>10000\<close>.\<close>

definition spaced_attempts :: "(int \<times> int) list" where
  "spaced_attempts = map (\<lambda>k. (1000 + 300 * int k, 1000 + 300 * int k)) [0..<31]"

text \<open>
  A table whose only row is older than six hours at \<open>30000000\<close>, and a limiter that has
  recorded thirty calls ten seconds before.
\<close>

definition stale_row :: db_row where
  "stale_row = \<lparr>from_currency = USD, to_currency = SAR, date = ''2024-06-01'',
                 db_rate = 3.7, updated_at = 0\<rparr>"

definition busy_state :: state where
  "busy_state = \<lparr>exchangeRatesCache = Map.empty, API_CALLS = replicate 30 29990000,
                  exchange_rates = [stale_row], io = []\<rparr>"

text \<open>The environment \<open>quiet_env\<close> with a table that refuses the upsert.\<close>

definition failing_store_env :: "int \<Rightarrow> env" where
  "failing_store_env clock = (quiet_env clock)\<lparr>upsert_error := True\<rparr>"

text \<open>The environment \<open>quiet_env\<close> with a provider that answers with an error payload.\<close>

definition error_env :: "int \<Rightarrow> env" where
  "error_env clock =
     (quiet_env clock)\<lparr>provider := (\<lambda>base.
        Resolves \<lparr>result = ''error'', error_type = ''quota-reached'',
                  conversion_rates = None\<rparr>)\<rparr>"

text \<open>
  The environment \<open>quiet_env\<close> with a provider of one given outcome, and two bodies that
  are no error payload: one without a rate for SAR, one without \<^verbatim>\<open>conversion_rates\<close>.
\<close>

definition answering_env :: "int \<Rightarrow> fetch_outcome \<Rightarrow> env" where
  "answering_env clock outcome = (quiet_env clock)\<lparr>provider := (\<lambda>base. outcome)\<rparr>"

definition egp_only :: api_data where
  "egp_only = \<lparr>result = ''success'', error_type = [], conversion_rates = Some [EGP \<mapsto> 47.5]\<rparr>"

definition no_rates :: api_data where
  "no_rates = \<lparr>result = ''success'', error_type = [], conversion_rates = None\<rparr>"

text \<open>
  The row for USD to SAR on 2024-06-01 at the rate 3.75, and the state after the first
  conversion on an empty table, cache and limiter: \<open>now\<close> is the clock reading at the
  start of the call, \<open>written\<close> the one when the row was sent.
\<close>

definition sar_row :: "int \<Rightarrow> db_row" where
  "sar_row written =
     \<lparr>from_currency = USD, to_currency = SAR, date = ''2024-06-01'', db_rate = 3.75,
      updated_at = written\<rparr>"

definition after_first_call :: "int \<Rightarrow> int \<Rightarrow> state" where
  "after_first_call now written =
     \<lparr>exchangeRatesCache =
        [''2024-06-01'' \<mapsto> [USD \<mapsto> [SAR \<mapsto> \<lparr>rate = 3.75, timestamp = now\<rparr>]]],
      API_CALLS = [now],
      exchange_rates = [sar_row written],
      io = [DbSelect USD SAR ''2024-06-01'', Fetch USD, DbUpsert (sar_row written)]\<rparr>"

text \<open>A row updated at \<open>1000\<close>, read at \<open>2000\<close>.\<close>

definition recent_row :: db_row where
  "recent_row = \<lparr>from_currency = USD, to_currency = SAR, date = ''2024-06-01'',
                  db_rate = 3.7, updated_at = 1000\<rparr>"

text \<open>A write for USD to EGP on 2024-05-01, with the \<open>updated_at\<close> its writer sends.\<close>

definition egp_write :: "real \<Rightarrow> int \<Rightarrow> db_row" where
  "egp_write r sent =
     \<lparr>from_currency = USD, to_currency = EGP, date = ''2024-05-01'', db_rate = r,
      updated_at = sent\<rparr>"

subsection \<open>Predicates of the statements\<close>

text \<open>A clock reading \<open>t\<close> in the span of length \<open>len\<close> that starts at \<open>t0\<close>.\<close>

definition within_span :: "int \<Rightarrow> int \<Rightarrow> int \<Rightarrow> bool" where
  "within_span t0 len t = (t0 \<le> t \<and> t \<le> t0 + len)"

text \<open>
  The row the table lookup of \<^verbatim>\<open>getExchangeRate\<close> accepts: found, and
  \<^verbatim>\<open>now - updatedAt < CACHE_EXPIRATION\<close>.
\<close>

definition freshRow ::
  "env \<Rightarrow> int \<Rightarrow> Currency \<Rightarrow> Currency \<Rightarrow> string \<Rightarrow> state \<Rightarrow> db_row option" where
  "freshRow e now f t d s =
     (case select_single (select_error e) (exchange_rates s) f t d of
        None \<Rightarrow> None
      | Some row \<Rightarrow> if now - updated_at row < CACHE_EXPIRATION then Some row else None)"

text \<open>
  A call of \<^verbatim>\<open>getExchangeRate\<close> reaches the limiter when the currencies differ, the cache
  check fails and the table has no fresh row.
\<close>

definition reachesLimiter ::
  "env \<Rightarrow> int \<Rightarrow> Currency \<Rightarrow> Currency \<Rightarrow> string \<Rightarrow> state \<Rightarrow> bool" where
  "reachesLimiter e now f t d s =
     (f \<noteq> t \<and> \<not> cacheHit (exchangeRatesCache s) now d f t \<and> freshRow e now f t d s = None)"

text \<open>
  The row \<^verbatim>\<open>getExchangeRate\<close> sends to the table: \<open>updated_at\<close> is
  \<^verbatim>\<open>new Date().toISOString()\<close>, read when the row is built.
\<close>

definition upsert_payload :: "env \<Rightarrow> Currency \<Rightarrow> Currency \<Rightarrow> string \<Rightarrow> real \<Rightarrow> db_row" where
  "upsert_payload e f t d r =
     \<lparr>from_currency = f, to_currency = t, date = d, db_rate = r, updated_at = clock_upsert e\<rparr>"

text \<open>
  The provider answers the base currency \<open>f\<close> with a body that is no error payload and
  holds a truthy rate \<open>r\<close> for the target currency \<open>t\<close>.
\<close>

definition providerGives :: "env \<Rightarrow> Currency \<Rightarrow> Currency \<Rightarrow> real \<Rightarrow> bool" where
  "providerGives e f t r =
     (case provider e f of
        Resolves data \<Rightarrow>
          result data \<noteq> ''error'' \<and>
          (case conversion_rates data of
             None \<Rightarrow> False
           | Some rates \<Rightarrow> rates t = Some r \<and> r \<noteq> 0)
      | _ \<Rightarrow> False)"

section \<open>Properties\<close>

subsection \<open>The limiter\<close>

lemma shift_expired_dropWhile:
  "shift_expired now calls = dropWhile (\<lambda>c. now - c > ONE_MINUTE) calls"
  by (induction calls) simp_all

lemma dropWhile_sorted_filter:
  "sorted calls \<Longrightarrow>
   dropWhile (\<lambda>c. now - c > k) calls = filter (\<lambda>c. \<not> now - c > (k::int)) calls"
proof (induction calls)
  case Nil
  then show ?case by simp
next
  case (Cons c cs)
  show ?case
  proof (cases "now - c > k")
    case True
    with Cons show ?thesis by simp
  next
    case False
    with Cons.prems have "\<forall>x \<in> set cs. \<not> now - x > k" by auto
    then have "filter (\<lambda>c. \<not> now - c > k) cs = cs" by (simp add: filter_id_conv)
    with False show ?thesis by simp
  qed
qed

lemma shift_expired_length: "length (shift_expired now calls) \<le> length calls"
  by (induction calls) (auto simp: le_SucI)

lemma tryAdmit_eq:
  "tryAdmit now_check now calls =
     (if length (shift_expired now_check calls) < 30
      then (True, shift_expired now_check calls @ [now])
      else (False, shift_expired now_check calls))"
  by (simp add: tryAdmit_def canMakeApiCall_def MAX_CALLS_PER_MINUTE_def Let_def)

lemma tryAdmit_bound:
  "length calls \<le> 30 \<Longrightarrow> length (snd (tryAdmit now_check now calls)) \<le> 30"
  using shift_expired_length [of now_check calls] by (simp add: tryAdmit_eq)

lemma shift_expired_id:
  "\<forall>c \<in> set calls. \<not> now - c > ONE_MINUTE \<Longrightarrow> shift_expired now calls = calls"
  by (cases calls) simp_all

lemma attempts_in_span:
  assumes "\<forall>(c, n) \<in> set as. within_span t0 10000 c \<and> within_span t0 10000 n"
    and "\<forall>t \<in> set calls. within_span t0 10000 t"
  shows "attempts as calls =
           (replicate (min (length as) (30 - length calls)) True @
            replicate (length as - (30 - length calls)) False,
            calls @ map snd (take (30 - length calls) as))"
  using assms
proof (induction as arbitrary: calls)
  case Nil
  then show ?case by simp
next
  case (Cons a as)
  obtain c n where a: "a = (c, n)" by (cases a)
  from Cons.prems a have c: "within_span t0 10000 c" and n: "within_span t0 10000 n" by auto
  have "\<forall>t \<in> set calls. \<not> c - t > ONE_MINUTE"
    using Cons.prems(2) c by (auto simp: within_span_def ONE_MINUTE_def)
  then have se: "shift_expired c calls = calls" by (rule shift_expired_id)
  show ?case
  proof (cases "length calls < 30")
    case True
    then have ta: "tryAdmit c n calls = (True, calls @ [n])" by (simp add: tryAdmit_eq se)
    have "\<forall>t \<in> set (calls @ [n]). within_span t0 10000 t" using Cons.prems(2) n by auto
    with Cons.IH [of "calls @ [n]"] Cons.prems(1)
    have ih: "attempts as (calls @ [n]) =
           (replicate (min (length as) (30 - length (calls @ [n]))) True @
            replicate (length as - (30 - length (calls @ [n]))) False,
            (calls @ [n]) @ map snd (take (30 - length (calls @ [n])) as))" by simp
    from True obtain k where k: "30 - length calls = Suc k" by (cases "30 - length calls") auto
    then have k': "30 - length (calls @ [n]) = k" by simp
    show ?thesis unfolding a by (simp add: ta ih k k' del: length_append)
  next
    case False
    then have ta: "tryAdmit c n calls = (False, calls)" by (simp add: tryAdmit_eq se)
    from False have z: "30 - length calls = 0" by simp
    from Cons.IH [of calls] Cons.prems have ih: "attempts as calls =
           (replicate (min (length as) (30 - length calls)) True @
            replicate (length as - (30 - length calls)) False,
            calls @ map snd (take (30 - length calls) as))" by simp
    show ?thesis unfolding a by (simp add: ta ih z)
  qed
qed

lemma attempts_fresh_31:
  assumes len: "length as = 31"
    and span: "\<forall>(c, n) \<in> set as. within_span t0 10000 c \<and> within_span t0 10000 n"
  shows "attempts as [] = (replicate 30 True @ [False], map snd (take 30 as))"
proof -
  have "attempts as [] =
           (replicate (min (length as) (30 - length ([]::int list))) True @
            replicate (length as - (30 - length ([]::int list))) False,
            [] @ map snd (take (30 - length ([]::int list)) as))"
    by (rule attempts_in_span [OF span]) simp
  then show ?thesis by (simp add: len)
qed

lemma admitted_after_first_expires:
  assumes "calls = n1 # rest" and "length calls \<le> 30" and "now_check - n1 > ONE_MINUTE"
  shows "tryAdmit now_check now calls = (True, shift_expired now_check rest @ [now])"
proof -
  have "length (shift_expired now_check rest) \<le> length rest" by (rule shift_expired_length)
  with assms have "length (shift_expired now_check rest) < 30" by simp
  with assms show ?thesis by (simp add: tryAdmit_eq)
qed

lemma API_CALLS_log_io [simp]: "API_CALLS (log_io ev s) = API_CALLS s"
  by (simp add: log_io_def)

lemma exchange_rates_log_io [simp]: "exchange_rates (log_io ev s) = exchange_rates s"
  by (simp add: log_io_def)

lemma exchangeRatesCache_log_io [simp]: "exchangeRatesCache (log_io ev s) = exchangeRatesCache s"
  by (simp add: log_io_def)

lemma io_log_io [simp]: "io (log_io ev s) = io s @ [ev]"
  by (simp add: log_io_def)

lemma fetchAndStore_API_CALLS:
  "API_CALLS (snd (fetchAndStore e now f t d s)) = API_CALLS s"
  by (simp add: fetchAndStore_def Let_def split: fetch_outcome.splits option.splits)

lemma fetchAndStore_not_rate_limit:
  "fst (fetchAndStore e now f t d s) \<noteq> Inl (ErrorInstance RateLimitExceeded)"
  by (simp add: fetchAndStore_def Let_def split: fetch_outcome.splits option.splits)

lemma admitAndFetch_API_CALLS:
  "API_CALLS (snd (admitAndFetch e now f t d s)) =
     snd (tryAdmit (clock_canMakeApiCall e) now (API_CALLS s))"
  by (simp add: admitAndFetch_def fetchAndStore_API_CALLS split: prod.splits bool.splits)

lemma admitAndFetch_rate_limit:
  "fst (admitAndFetch e now f t d s) = Inl (ErrorInstance RateLimitExceeded) \<longleftrightarrow>
     \<not> fst (tryAdmit (clock_canMakeApiCall e) now (API_CALLS s))"
  by (simp add: admitAndFetch_def fetchAndStore_not_rate_limit split: prod.splits bool.splits)

lemma tryBlock_fresh:
  "freshRow e now f t d s = Some row \<Longrightarrow>
   tryBlock e now f t d s =
     (Inr (db_rate row),
      (log_io (DbSelect f t d) s)\<lparr>exchangeRatesCache :=
         cachePut (exchangeRatesCache s) d f t \<lparr>rate = db_rate row, timestamp = now\<rparr>\<rparr>)"
  by (auto simp: freshRow_def tryBlock_def Let_def split: option.splits if_splits)

lemma tryBlock_not_fresh:
  "freshRow e now f t d s = None \<Longrightarrow>
   tryBlock e now f t d s = admitAndFetch e now f t d (log_io (DbSelect f t d) s)"
  by (auto simp: freshRow_def tryBlock_def Let_def split: option.splits if_splits)

lemma getExchangeRate_same: "getExchangeRate e now f f d s = (Inr 1, s)"
  by (simp add: getExchangeRate_def)

lemma getExchangeRate_hit:
  "f \<noteq> t \<Longrightarrow> cacheGet (exchangeRatesCache s) d f t = Some c \<Longrightarrow> rate c \<noteq> 0 \<Longrightarrow>
   now - timestamp c < CACHE_EXPIRATION \<Longrightarrow> getExchangeRate e now f t d s = (Inr (rate c), s)"
  by (simp add: getExchangeRate_def)

lemma getExchangeRate_miss:
  "f \<noteq> t \<Longrightarrow> \<not> cacheHit (exchangeRatesCache s) now d f t \<Longrightarrow>
   getExchangeRate e now f t d s = tryCatch e now f t d s"
  by (auto simp: getExchangeRate_def cacheHit_def split: option.splits)

lemma cacheGet_cachePut [simp]: "cacheGet (cachePut c d f t v) d f t = Some v"
  by (simp add: cacheGet_def cachePut_def Let_def)

lemma tryBlock_API_CALLS:
  "API_CALLS (snd (tryBlock e now f t d s)) =
     (case freshRow e now f t d s of
        Some row \<Rightarrow> API_CALLS s
      | None \<Rightarrow> snd (tryAdmit (clock_canMakeApiCall e) now (API_CALLS s)))"
  by (cases "freshRow e now f t d s")
     (simp_all add: tryBlock_fresh tryBlock_not_fresh admitAndFetch_API_CALLS)

lemma tryCatch_API_CALLS:
  "API_CALLS (snd (tryCatch e now f t d s)) = API_CALLS (snd (tryBlock e now f t d s))"
  by (simp add: tryCatch_def split: prod.splits sum.splits)

lemma rethrow_rate_limit:
  "rethrow x = RateLimitExceeded \<longleftrightarrow> x = ErrorInstance RateLimitExceeded"
  by (cases x) (simp_all add: rethrow_def)

lemma tryCatch_rate_limit:
  "fst (tryCatch e now f t d s) = Inl RateLimitExceeded \<longleftrightarrow>
   fst (tryBlock e now f t d s) = Inl (ErrorInstance RateLimitExceeded)"
  by (auto simp: tryCatch_def rethrow_rate_limit split: prod.splits sum.splits)

lemma tryBlock_rate_limit:
  "fst (tryBlock e now f t d s) = Inl (ErrorInstance RateLimitExceeded) \<longleftrightarrow>
   freshRow e now f t d s = None \<and>
   \<not> fst (tryAdmit (clock_canMakeApiCall e) now (API_CALLS s))"
  by (cases "freshRow e now f t d s")
     (simp_all add: tryBlock_fresh tryBlock_not_fresh admitAndFetch_rate_limit)

lemma getExchangeRate_API_CALLS:
  "API_CALLS (snd (getExchangeRate e now f t d s)) =
     (if reachesLimiter e now f t d s
      then snd (tryAdmit (clock_canMakeApiCall e) now (API_CALLS s))
      else API_CALLS s)"
proof (cases "f = t")
  case True
  then show ?thesis by (simp add: getExchangeRate_same reachesLimiter_def)
next
  case ft: False
  show ?thesis
  proof (cases "cacheHit (exchangeRatesCache s) now d f t")
    case True
    then show ?thesis using ft
      by (auto simp: getExchangeRate_def cacheHit_def reachesLimiter_def split: option.splits)
  next
    case False
    then show ?thesis using ft
      by (simp add: getExchangeRate_miss tryCatch_API_CALLS tryBlock_API_CALLS
          reachesLimiter_def split: option.splits)
  qed
qed

lemma getExchangeRate_rate_limit:
  "fst (getExchangeRate e now f t d s) = Inl RateLimitExceeded \<longleftrightarrow>
     reachesLimiter e now f t d s \<and>
     \<not> fst (tryAdmit (clock_canMakeApiCall e) now (API_CALLS s))"
proof (cases "f = t")
  case True
  then show ?thesis by (simp add: getExchangeRate_same reachesLimiter_def)
next
  case ft: False
  show ?thesis
  proof (cases "cacheHit (exchangeRatesCache s) now d f t")
    case True
    then show ?thesis using ft
      by (auto simp: getExchangeRate_def cacheHit_def reachesLimiter_def split: option.splits)
  next
    case False
    then show ?thesis using ft
      by (simp add: getExchangeRate_miss tryCatch_rate_limit tryBlock_rate_limit
          reachesLimiter_def)
  qed
qed

lemma getExchangeRate_bound:
  "length (API_CALLS s) \<le> 30 \<Longrightarrow>
   length (API_CALLS (snd (getExchangeRate e now f t d s))) \<le> 30"
  by (simp add: getExchangeRate_API_CALLS tryAdmit_bound)

lemma run_bound:
  "length (API_CALLS s) \<le> 30 \<Longrightarrow> length (API_CALLS (run cs s)) \<le> 30"
proof (induction cs arbitrary: s)
  case Nil
  then show ?case by simp
next
  case (Cons c cs)
  obtain e now f t d where c: "c = (e, now, f, t, d)" by (cases c)
  from Cons.prems have "length (API_CALLS (snd (getExchangeRate e now f t d s))) \<le> 30"
    by (rule getExchangeRate_bound)
  then show ?case unfolding c by (simp add: Cons.IH)
qed

subsection \<open>The claims on the limiter and the identity\<close>

text \<open>
  C9. For every currency \<open>X\<close> and every date, \<^verbatim>\<open>getExchangeRate(X, X, date)\<close> returns 1 and
  the state it returns is the state it was given, whatever that state and the environment
  are: the cache and the limiter are not written, the table is neither read nor written,
  nothing is fetched and nothing is logged (\<open>io\<close> is a field of the state), and the
  answer depends on no stored value.
\<close>

theorem identity_short_circuit:
  "getExchangeRate e now X X dateStr s = (Inr 1, s)"
  by (rule getExchangeRate_same)

theorem identity_short_circuit_witness:
  "getExchangeRate (quiet_env 5) 5 EGP EGP ''2024-06-01'' (initial []) = (Inr 1, initial [])"
  by (rule identity_short_circuit)

text \<open>
  C3. The admission check removes the expired timestamps from the front of the sequence:
  what \<^verbatim>\<open>canMakeApiCall\<close> leaves is the sequence without its longest prefix of timestamps
  older than \<open>now - 60000\<close>, which for timestamps in increasing order is the sequence
  without any timestamp older than \<open>now - 60000\<close>. It answers true iff fewer than 30
  remain; the admission step then records \<open>now\<close> and is admitted, or records nothing and
  is denied. Hence, from an empty sequence, 31 attempts whose clock readings lie in a span
  of 10 seconds give 30 admissions followed by one denial, and an attempt made 61 seconds
  or more after the time recorded for the first call is admitted.
\<close>

theorem rate_limiter_algorithm:
  "snd (canMakeApiCall now calls) = dropWhile (\<lambda>c. c < now - 60000) calls
   \<and> (sorted calls \<longrightarrow>
        snd (canMakeApiCall now calls) = filter (\<lambda>c. \<not> c < now - 60000) calls)
   \<and> fst (canMakeApiCall now calls) = (length (snd (canMakeApiCall now calls)) < 30)
   \<and> tryAdmit now_check now' calls =
        (if fst (canMakeApiCall now_check calls)
         then (True, snd (canMakeApiCall now_check calls) @ [now'])
         else (False, snd (canMakeApiCall now_check calls)))
   \<and> (length atts = 31
        \<and> (\<forall>(c, n) \<in> set atts. within_span t0 10000 c \<and> within_span t0 10000 n)
        \<and> snd (hd atts) + 61000 \<le> later \<longrightarrow>
        fst (attempts atts []) = replicate 30 True @ [False]
        \<and> fst (tryAdmit later now'' (snd (attempts atts []))))"
proof -
  have old: "\<And>c. (now - c > ONE_MINUTE) = (c < now - 60000)"
    by (auto simp: ONE_MINUTE_def)
  have p1: "snd (canMakeApiCall now calls) = dropWhile (\<lambda>c. c < now - 60000) calls"
    using shift_expired_dropWhile [of now calls] by (simp add: canMakeApiCall_def old Let_def)
  have p2: "sorted calls \<longrightarrow>
        snd (canMakeApiCall now calls) = filter (\<lambda>c. \<not> c < now - 60000) calls"
  proof
    assume "sorted calls"
    then have "dropWhile (\<lambda>c. now - c > ONE_MINUTE) calls =
        filter (\<lambda>c. \<not> now - c > ONE_MINUTE) calls"
      by (rule dropWhile_sorted_filter)
    then show "snd (canMakeApiCall now calls) = filter (\<lambda>c. \<not> c < now - 60000) calls"
      by (simp add: p1 old)
  qed
  have p3: "fst (canMakeApiCall now calls) = (length (snd (canMakeApiCall now calls)) < 30)"
    by (simp add: canMakeApiCall_def MAX_CALLS_PER_MINUTE_def Let_def)
  have p4: "tryAdmit now_check now' calls =
        (if fst (canMakeApiCall now_check calls)
         then (True, snd (canMakeApiCall now_check calls) @ [now'])
         else (False, snd (canMakeApiCall now_check calls)))"
    by (simp add: tryAdmit_def split: prod.splits bool.splits)
  have p5: "length atts = 31
        \<and> (\<forall>(c, n) \<in> set atts. within_span t0 10000 c \<and> within_span t0 10000 n)
        \<and> snd (hd atts) + 61000 \<le> later \<longrightarrow>
        fst (attempts atts []) = replicate 30 True @ [False]
        \<and> fst (tryAdmit later now'' (snd (attempts atts [])))"
  proof
    assume h: "length atts = 31
        \<and> (\<forall>(c, n) \<in> set atts. within_span t0 10000 c \<and> within_span t0 10000 n)
        \<and> snd (hd atts) + 61000 \<le> later"
    then have len: "length atts = 31"
      and span: "\<forall>(c, n) \<in> set atts. within_span t0 10000 c \<and> within_span t0 10000 n"
      by blast+
    have run: "attempts atts [] = (replicate 30 True @ [False], map snd (take 30 atts))"
      using len span by (rule attempts_fresh_31)
    from h obtain a as' where atts: "atts = a # as'" by (cases atts) auto
    have "tryAdmit later now'' (map snd (take 30 atts)) =
        (True, shift_expired later (map snd (take 29 as')) @ [now''])"
    proof (rule admitted_after_first_expires)
      show "map snd (take 30 atts) = snd a # map snd (take 29 as')" by (simp add: atts)
      show "length (map snd (take 30 atts)) \<le> 30" by simp
      show "later - snd a > ONE_MINUTE" using h by (simp add: atts ONE_MINUTE_def)
    qed
    with run show "fst (attempts atts []) = replicate 30 True @ [False]
        \<and> fst (tryAdmit later now'' (snd (attempts atts [])))" by simp
  qed
  from p1 p2 p3 p4 p5 show ?thesis by blast
qed

lemma spaced_attempts_span:
  "\<forall>(c, n) \<in> set spaced_attempts. within_span 1000 10000 c \<and> within_span 1000 10000 n"
  by (auto simp: spaced_attempts_def within_span_def)

theorem rate_limiter_algorithm_witness:
  "snd (canMakeApiCall 100000 [30000, 39000, 41000, 99000]) = [41000, 99000]
   \<and> fst (canMakeApiCall 100000 [30000, 39000, 41000, 99000])
   \<and> tryAdmit 100000 99990 [30000, 39000, 41000, 99000] = (True, [41000, 99000, 99990])
   \<and> fst (attempts spaced_attempts []) = replicate 30 True @ [False]
   \<and> fst (tryAdmit 62000 61990 (snd (attempts spaced_attempts [])))"
proof -
  have s: "sorted [30000, 39000, 41000, 99000 :: int]" by simp
  have h: "length spaced_attempts = 31
        \<and> (\<forall>(c, n) \<in> set spaced_attempts. within_span 1000 10000 c \<and> within_span 1000 10000 n)
        \<and> snd (hd spaced_attempts) + 61000 \<le> 62000"
    using spaced_attempts_span by (simp add: spaced_attempts_def hd_map)
  from rate_limiter_algorithm [where now = 100000 and calls = "[30000, 39000, 41000, 99000]"
      and now_check = 100000 and now' = 99990 and atts = spaced_attempts and ?t0.0 = 1000
      and later = 62000 and now'' = 61990] s h
  show ?thesis by simp
qed

text \<open>
  C10. After any sequence of calls of \<^verbatim>\<open>getExchangeRate\<close>, from the state of a freshly
  loaded module or from any state with at most 30 recorded timestamps, \<^verbatim>\<open>API_CALLS\<close> holds
  at most 30 timestamps. One call leaves \<^verbatim>\<open>API_CALLS\<close> as it was, or pruned with \<open>now\<close>
  appended after fewer than 30 timestamps were left, or only pruned when it is denied; a
  denied call records nothing.
\<close>

theorem limiter_bound_invariant:
  "length (API_CALLS (run cs (initial rows))) \<le> 30
   \<and> (length (API_CALLS s) \<le> 30 \<longrightarrow> length (API_CALLS (run cs s)) \<le> 30)
   \<and> (API_CALLS (snd (getExchangeRate e now f t d s)) = API_CALLS s
       \<or> API_CALLS (snd (getExchangeRate e now f t d s)) =
            shift_expired (clock_canMakeApiCall e) (API_CALLS s) @ [now]
          \<and> length (shift_expired (clock_canMakeApiCall e) (API_CALLS s)) < 30
       \<or> API_CALLS (snd (getExchangeRate e now f t d s)) =
            shift_expired (clock_canMakeApiCall e) (API_CALLS s)
          \<and> fst (getExchangeRate e now f t d s) = Inl RateLimitExceeded)
   \<and> (fst (getExchangeRate e now f t d s) = Inl RateLimitExceeded \<longrightarrow>
        API_CALLS (snd (getExchangeRate e now f t d s)) =
          shift_expired (clock_canMakeApiCall e) (API_CALLS s)
        \<and> 30 \<le> length (shift_expired (clock_canMakeApiCall e) (API_CALLS s)))"
proof -
  have p1: "length (API_CALLS (run cs (initial rows))) \<le> 30"
    by (rule run_bound) (simp add: initial_def)
  have p2: "length (API_CALLS s) \<le> 30 \<longrightarrow> length (API_CALLS (run cs s)) \<le> 30"
    by (simp add: run_bound)
  have p3: "API_CALLS (snd (getExchangeRate e now f t d s)) = API_CALLS s
       \<or> API_CALLS (snd (getExchangeRate e now f t d s)) =
            shift_expired (clock_canMakeApiCall e) (API_CALLS s) @ [now]
          \<and> length (shift_expired (clock_canMakeApiCall e) (API_CALLS s)) < 30
       \<or> API_CALLS (snd (getExchangeRate e now f t d s)) =
            shift_expired (clock_canMakeApiCall e) (API_CALLS s)
          \<and> fst (getExchangeRate e now f t d s) = Inl RateLimitExceeded"
    by (simp add: getExchangeRate_API_CALLS getExchangeRate_rate_limit tryAdmit_eq)
  have p4: "fst (getExchangeRate e now f t d s) = Inl RateLimitExceeded \<longrightarrow>
        API_CALLS (snd (getExchangeRate e now f t d s)) =
          shift_expired (clock_canMakeApiCall e) (API_CALLS s)
        \<and> 30 \<le> length (shift_expired (clock_canMakeApiCall e) (API_CALLS s))"
    by (simp add: getExchangeRate_API_CALLS getExchangeRate_rate_limit tryAdmit_eq)
  from p1 p2 p3 p4 show ?thesis by blast
qed

lemma busy_state_reachesLimiter:
  "reachesLimiter (quiet_env 30000000) 30000000 USD SAR ''2024-06-01'' busy_state"
  by (simp add: reachesLimiter_def cacheHit_def cacheGet_def freshRow_def select_single_def
      has_key_def busy_state_def stale_row_def quiet_env_def CACHE_EXPIRATION_def)

lemma busy_state_shift:
  "shift_expired 30000000 (replicate 30 29990000) = replicate 30 29990000"
  by (rule shift_expired_id) (simp add: ONE_MINUTE_def)

lemma busy_state_denied:
  "fst (getExchangeRate (quiet_env 30000000) 30000000 USD SAR ''2024-06-01'' busy_state) =
     Inl RateLimitExceeded"
  using busy_state_reachesLimiter
  by (simp add: getExchangeRate_rate_limit tryAdmit_eq)
     (simp add: busy_state_def quiet_env_def busy_state_shift)

theorem limiter_bound_invariant_witness:
  "length (API_CALLS (run [(quiet_env 30000000, 30000000, USD, SAR, ''2024-06-01'')]
      busy_state)) \<le> 30
   \<and> fst (getExchangeRate (quiet_env 30000000) 30000000 USD SAR ''2024-06-01'' busy_state) =
       Inl RateLimitExceeded
   \<and> API_CALLS (snd (getExchangeRate (quiet_env 30000000) 30000000 USD SAR ''2024-06-01''
       busy_state)) = replicate 30 29990000"
proof -
  have len: "length (API_CALLS busy_state) \<le> 30" by (simp add: busy_state_def)
  have clock: "clock_canMakeApiCall (quiet_env 30000000) = 30000000"
    by (simp add: quiet_env_def)
  have calls: "API_CALLS busy_state = replicate 30 29990000" by (simp add: busy_state_def)
  from limiter_bound_invariant [where s = busy_state and e = "quiet_env 30000000"
      and now = 30000000 and f = USD and t = SAR and d = "''2024-06-01''"
      and cs = "[(quiet_env 30000000, 30000000, USD, SAR, ''2024-06-01'')]"]
    len busy_state_denied
  show ?thesis by (simp add: clock calls busy_state_shift)
qed

subsection \<open>The provider path\<close>

lemma fetchAndStore_success:
  assumes "providerGives e f t r"
  shows "fetchAndStore e now f t d s =
     (Inr r,
      s\<lparr>io := io s @ [Fetch f, DbUpsert (upsert_payload e f t d r)] @
                (if upsert_error e then [ConsoleError ''Error storing exchange rate:''] else []),
        exchange_rates :=
          (if upsert_error e then exchange_rates s
           else upsert (db_now e) (upsert_payload e f t d r) (exchange_rates s)),
        exchangeRatesCache :=
          cachePut (exchangeRatesCache s) d f t \<lparr>rate = r, timestamp = now\<rparr>\<rparr>)"
  using assms
  by (auto simp: providerGives_def fetchAndStore_def Let_def log_io_def upsert_payload_def
      split: fetch_outcome.splits option.splits)

lemma fetchAndStore_Inr:
  "fetchAndStore e now f t d s = (Inr r, s') \<Longrightarrow> providerGives e f t r"
  by (auto simp: providerGives_def fetchAndStore_def Let_def
      split: fetch_outcome.splits option.splits if_splits)

lemma admitAndFetch_admitted:
  "length (shift_expired (clock_canMakeApiCall e) (API_CALLS s)) < 30 \<Longrightarrow>
   admitAndFetch e now f t d s =
     fetchAndStore e now f t d
       (s\<lparr>API_CALLS := shift_expired (clock_canMakeApiCall e) (API_CALLS s) @ [now]\<rparr>)"
  by (simp add: admitAndFetch_def tryAdmit_eq)

lemma admitAndFetch_denied:
  "\<not> length (shift_expired (clock_canMakeApiCall e) (API_CALLS s)) < 30 \<Longrightarrow>
   admitAndFetch e now f t d s =
     (Inl (ErrorInstance RateLimitExceeded),
      s\<lparr>API_CALLS := shift_expired (clock_canMakeApiCall e) (API_CALLS s)\<rparr>)"
  by (simp add: admitAndFetch_def tryAdmit_eq)

lemma admitAndFetch_Inr:
  "admitAndFetch e now f t d s = (Inr r, s') \<Longrightarrow>
   cacheGet (exchangeRatesCache s') d f t = Some \<lparr>rate = r, timestamp = now\<rparr> \<and> r \<noteq> 0"
proof (cases "length (shift_expired (clock_canMakeApiCall e) (API_CALLS s)) < 30")
  case True
  assume a: "admitAndFetch e now f t d s = (Inr r, s')"
  with True have fs: "fetchAndStore e now f t d
       (s\<lparr>API_CALLS := shift_expired (clock_canMakeApiCall e) (API_CALLS s) @ [now]\<rparr>) = (Inr r, s')"
    by (simp add: admitAndFetch_admitted)
  then have g: "providerGives e f t r" by (rule fetchAndStore_Inr)
  from fs fetchAndStore_success [OF g] have "cacheGet (exchangeRatesCache s') d f t =
      Some \<lparr>rate = r, timestamp = now\<rparr>" by auto
  moreover from g have "r \<noteq> 0"
    by (auto simp: providerGives_def split: fetch_outcome.splits option.splits)
  ultimately show ?thesis by simp
next
  case False
  assume "admitAndFetch e now f t d s = (Inr r, s')"
  with False show ?thesis by (simp add: admitAndFetch_denied)
qed

lemma tryBlock_Inr:
  "tryBlock e now f t d s = (Inr r, s') \<Longrightarrow>
   cacheGet (exchangeRatesCache s') d f t = Some \<lparr>rate = r, timestamp = now\<rparr>"
proof (cases "freshRow e now f t d s")
  case None
  assume "tryBlock e now f t d s = (Inr r, s')"
  with None show ?thesis by (simp add: tryBlock_not_fresh admitAndFetch_Inr)
next
  case (Some row)
  assume "tryBlock e now f t d s = (Inr r, s')"
  with Some show ?thesis by (auto simp: tryBlock_fresh)
qed

lemma tryCatch_Inr:
  "tryCatch e now f t d s = (Inr r, s') \<Longrightarrow> tryBlock e now f t d s = (Inr r, s')"
  by (auto simp: tryCatch_def split: prod.splits sum.splits)

lemma resolved_is_cached:
  assumes "f \<noteq> t" and "\<not> cacheHit (exchangeRatesCache s) now d f t"
    and "getExchangeRate e now f t d s = (Inr r, s')"
  shows "cacheGet (exchangeRatesCache s') d f t = Some \<lparr>rate = r, timestamp = now\<rparr>"
proof -
  from assms have "tryCatch e now f t d s = (Inr r, s')" by (simp add: getExchangeRate_miss)
  then have "tryBlock e now f t d s = (Inr r, s')" by (rule tryCatch_Inr)
  then show ?thesis by (rule tryBlock_Inr)
qed

lemma fetchAndStore_io:
  "\<exists>rest. io (snd (fetchAndStore e now f t d s)) = io s @ Fetch f # rest"
  by (simp add: fetchAndStore_def Let_def split: fetch_outcome.splits option.splits)

lemma admitAndFetch_io:
  "\<exists>rest. io (snd (admitAndFetch e now f t d s)) = io s @ rest"
proof (cases "length (shift_expired (clock_canMakeApiCall e) (API_CALLS s)) < 30")
  case True
  from fetchAndStore_io [of e now f t d
      "s\<lparr>API_CALLS := shift_expired (clock_canMakeApiCall e) (API_CALLS s) @ [now]\<rparr>"]
  show ?thesis using True by (auto simp: admitAndFetch_admitted)
next
  case False
  then show ?thesis by (simp add: admitAndFetch_denied)
qed

lemma tryBlock_io:
  "\<exists>rest. io (snd (tryBlock e now f t d s)) = io s @ DbSelect f t d # rest"
proof (cases "freshRow e now f t d s")
  case None
  from admitAndFetch_io [of e now f t d "log_io (DbSelect f t d) s"]
  show ?thesis using None by (auto simp: tryBlock_not_fresh)
next
  case (Some row)
  then show ?thesis by (simp add: tryBlock_fresh)
qed

lemma tryCatch_io:
  "\<exists>rest. io (snd (tryCatch e now f t d s)) = io s @ DbSelect f t d # rest"
  using tryBlock_io [of e now f t d s]
  by (auto simp: tryCatch_def split: prod.splits sum.splits)

lemma fetchAndStore_fst:
  "fst (fetchAndStore e now f t d s') = fst (fetchAndStore e now f t d s)"
  by (simp add: fetchAndStore_def Let_def split: fetch_outcome.splits option.splits)

lemma admitAndFetch_fst:
  assumes "API_CALLS s' = API_CALLS s"
  shows "fst (admitAndFetch e now f t d s') = fst (admitAndFetch e now f t d s)"
proof (cases "length (shift_expired (clock_canMakeApiCall e) (API_CALLS s)) < 30")
  case True
  have "fst (fetchAndStore e now f t d
        (s'\<lparr>API_CALLS := shift_expired (clock_canMakeApiCall e) (API_CALLS s) @ [now]\<rparr>)) =
      fst (fetchAndStore e now f t d
        (s\<lparr>API_CALLS := shift_expired (clock_canMakeApiCall e) (API_CALLS s) @ [now]\<rparr>))"
    by (rule fetchAndStore_fst)
  with True assms show ?thesis by (simp add: admitAndFetch_admitted)
next
  case False
  with assms show ?thesis by (simp add: admitAndFetch_denied)
qed

lemma tryBlock_fst:
  assumes calls: "API_CALLS s' = API_CALLS s" and rows: "exchange_rates s' = exchange_rates s"
  shows "fst (tryBlock e now f t d s') = fst (tryBlock e now f t d s)"
proof -
  have fr: "freshRow e now f t d s' = freshRow e now f t d s" by (simp add: freshRow_def rows)
  show ?thesis
  proof (cases "freshRow e now f t d s")
    case None
    have "fst (admitAndFetch e now f t d (log_io (DbSelect f t d) s')) =
        fst (admitAndFetch e now f t d (log_io (DbSelect f t d) s))"
      by (rule admitAndFetch_fst) (simp add: calls)
    with None fr show ?thesis by (simp add: tryBlock_not_fresh)
  next
    case (Some row)
    with fr show ?thesis by (simp add: tryBlock_fresh)
  qed
qed

lemma tryCatch_fst:
  assumes "API_CALLS s' = API_CALLS s" and "exchange_rates s' = exchange_rates s"
  shows "fst (tryCatch e now f t d s') = fst (tryCatch e now f t d s)"
proof -
  have c: "fst (tryCatch e now f t d u) =
      (case fst (tryBlock e now f t d u) of Inl x \<Rightarrow> Inl (rethrow x) | Inr r \<Rightarrow> Inr r)" for u
    by (simp add: tryCatch_def split: prod.splits sum.splits)
  have "fst (tryBlock e now f t d s') = fst (tryBlock e now f t d s)"
    using assms by (rule tryBlock_fst)
  then show ?thesis by (simp only: c)
qed

lemma getExchangeRate_expired:
  assumes "f \<noteq> t"
    and "cacheGet (exchangeRatesCache s) d f t = Some c"
    and "\<not> now - timestamp c < CACHE_EXPIRATION"
  shows "getExchangeRate e now f t d s = tryCatch e now f t d s"
  using assms by (simp add: getExchangeRate_def)

lemma getExchangeRate_empty_cache:
  "f \<noteq> t \<Longrightarrow>
   getExchangeRate e now f t d (s\<lparr>exchangeRatesCache := Map.empty\<rparr>) =
     tryCatch e now f t d (s\<lparr>exchangeRatesCache := Map.empty\<rparr>)"
  by (simp add: getExchangeRate_def cacheGet_def)

lemma getExchangeRate_provider:
  assumes reach: "reachesLimiter e now f t d s"
    and admit: "length (shift_expired (clock_canMakeApiCall e) (API_CALLS s)) < 30"
    and gives: "providerGives e f t r"
  shows "getExchangeRate e now f t d s =
     (Inr r,
      s\<lparr>API_CALLS := shift_expired (clock_canMakeApiCall e) (API_CALLS s) @ [now],
        io := io s @ [DbSelect f t d, Fetch f, DbUpsert (upsert_payload e f t d r)] @
                (if upsert_error e then [ConsoleError ''Error storing exchange rate:''] else []),
        exchange_rates :=
          (if upsert_error e then exchange_rates s
           else upsert (db_now e) (upsert_payload e f t d r) (exchange_rates s)),
        exchangeRatesCache :=
          cachePut (exchangeRatesCache s) d f t \<lparr>rate = r, timestamp = now\<rparr>\<rparr>)"
proof -
  from reach have ft: "f \<noteq> t" and miss: "\<not> cacheHit (exchangeRatesCache s) now d f t"
    and nf: "freshRow e now f t d s = None"
    by (simp_all add: reachesLimiter_def)
  have "tryBlock e now f t d s =
      fetchAndStore e now f t d
        ((log_io (DbSelect f t d) s)\<lparr>API_CALLS :=
            shift_expired (clock_canMakeApiCall e) (API_CALLS s) @ [now]\<rparr>)"
    using admit by (simp add: tryBlock_not_fresh [OF nf] admitAndFetch_admitted)
  then have "tryBlock e now f t d s =
     (Inr r,
      s\<lparr>API_CALLS := shift_expired (clock_canMakeApiCall e) (API_CALLS s) @ [now],
        io := io s @ [DbSelect f t d, Fetch f, DbUpsert (upsert_payload e f t d r)] @
                (if upsert_error e then [ConsoleError ''Error storing exchange rate:''] else []),
        exchange_rates :=
          (if upsert_error e then exchange_rates s
           else upsert (db_now e) (upsert_payload e f t d r) (exchange_rates s)),
        exchangeRatesCache :=
          cachePut (exchangeRatesCache s) d f t \<lparr>rate = r, timestamp = now\<rparr>\<rparr>)"
    by (simp add: fetchAndStore_success [OF gives] log_io_def)
  then show ?thesis using ft miss by (simp add: getExchangeRate_miss tryCatch_def)
qed

lemma getExchangeRate_store_hit:
  assumes "f \<noteq> t" and "\<not> cacheHit (exchangeRatesCache s) now d f t"
    and "freshRow e now f t d s = Some row"
  shows "getExchangeRate e now f t d s =
     (Inr (db_rate row),
      s\<lparr>io := io s @ [DbSelect f t d],
        exchangeRatesCache :=
          cachePut (exchangeRatesCache s) d f t \<lparr>rate = db_rate row, timestamp = now\<rparr>\<rparr>)"
  using assms by (simp add: getExchangeRate_miss tryCatch_def tryBlock_fresh log_io_def)

lemma convertAmount_fst:
  "fst (convertAmount e now amount f t d s) =
     (case fst (getExchangeRate e now f t d s) of
        Inl err \<Rightarrow> Inl FailedToConvertAmount
      | Inr r \<Rightarrow> Inr (amount * r))"
  by (simp add: convertAmount_def split: prod.splits sum.splits)

lemma initial_reachesLimiter:
  "f \<noteq> t \<Longrightarrow> reachesLimiter e now f t d (initial [])"
  by (simp add: reachesLimiter_def cacheHit_def cacheGet_def freshRow_def select_single_def
      initial_def)

lemma initial_admits:
  "length (shift_expired c (API_CALLS (initial rows))) < 30"
  by (simp add: initial_def)

subsection \<open>C8: a failed upsert\<close>

text \<open>
  C8. When a call reaches the provider (the currencies differ, the cache check fails, the
  table has no fresh row, the limiter admits), the provider gives a rate \<open>r\<close>, and the upsert
  returns an error, then \<^verbatim>\<open>getExchangeRate\<close> still returns \<open>r\<close> and the cache holds \<open>r\<close> with
  the timestamp \<open>now\<close>; the table is unchanged, the error is logged with
  \<^verbatim>\<open>console.error\<close> and nothing is thrown: \<^verbatim>\<open>convertAmount\<close> returns \<open>amount * r\<close>.
\<close>

theorem store_write_failure_nonfatal:
  assumes "reachesLimiter e now f t d s"
    and "length (shift_expired (clock_canMakeApiCall e) (API_CALLS s)) < 30"
    and "providerGives e f t r"
    and "upsert_error e"
  shows "fst (getExchangeRate e now f t d s) = Inr r
    \<and> cacheGet (exchangeRatesCache (snd (getExchangeRate e now f t d s))) d f t =
        Some \<lparr>rate = r, timestamp = now\<rparr>
    \<and> exchange_rates (snd (getExchangeRate e now f t d s)) = exchange_rates s
    \<and> io (snd (getExchangeRate e now f t d s)) =
        io s @ [DbSelect f t d, Fetch f, DbUpsert (upsert_payload e f t d r),
                ConsoleError ''Error storing exchange rate:'']
    \<and> fst (convertAmount e now amount f t d s) = Inr (amount * r)"
  using assms by (simp add: getExchangeRate_provider convertAmount_fst)

theorem store_write_failure_nonfatal_witness:
  "fst (getExchangeRate (failing_store_env 5000) 5000 USD SAR ''2024-06-01'' (initial [])) =
     Inr 3.75
   \<and> cacheGet (exchangeRatesCache (snd (getExchangeRate (failing_store_env 5000) 5000 USD SAR
        ''2024-06-01'' (initial [])))) ''2024-06-01'' USD SAR =
       Some \<lparr>rate = 3.75, timestamp = 5000\<rparr>
   \<and> exchange_rates (snd (getExchangeRate (failing_store_env 5000) 5000 USD SAR
        ''2024-06-01'' (initial []))) = []
   \<and> fst (convertAmount (failing_store_env 5000) 5000 200 USD SAR ''2024-06-01''
        (initial [])) = Inr 750"
proof -
  have reach: "reachesLimiter (failing_store_env 5000) 5000 USD SAR ''2024-06-01'' (initial [])"
    by (simp add: reachesLimiter_def cacheHit_def cacheGet_def freshRow_def select_single_def
        initial_def)
  have admit: "length (shift_expired (clock_canMakeApiCall (failing_store_env 5000))
      (API_CALLS (initial []))) < 30"
    by (simp add: initial_def)
  have gives: "providerGives (failing_store_env 5000) USD SAR 3.75"
    by (simp add: providerGives_def failing_store_env_def quiet_env_def provider_SAR_def)
  have err: "upsert_error (failing_store_env 5000)"
    by (simp add: failing_store_env_def)
  from store_write_failure_nonfatal [OF reach admit gives err, of 200]
  show ?thesis by (simp add: initial_def)
qed

subsection \<open>C1: the end-to-end scenario\<close>

text \<open>
  C1. With an empty table, an empty limiter and an empty cache, and a provider that
  answers the base USD with \<^verbatim>\<open>result: "success"\<close> and a rate of 3.75 for SAR,
  \<^verbatim>\<open>convertAmount(200, USD, SAR, 2024-06-01)\<close> returns 750. It sends exactly one upsert,
  of the row (USD, SAR, 2024-06-01, 3.75, the clock reading when the row is written), and
  the table then holds that row; it fetches once and records \<open>now\<close> in the limiter; the
  cache holds 3.75 with the timestamp \<open>now\<close>. A second identical call less than six hours
  after \<open>now\<close> returns 750 and leaves the state as it is: no request is logged, so the
  provider is not called again.
\<close>

theorem end_to_end_resolution:
  assumes prov: "provider e USD = Resolves data" and "result data = ''success''"
    and "conversion_rates data = Some rates" and "rates SAR = Some 3.75"
    and db: "\<not> upsert_error e"
  shows "convertAmount e now 200 USD SAR ''2024-06-01'' (initial []) =
      (Inr 750, after_first_call now (clock_upsert e))
    \<and> (now2 - now < CACHE_EXPIRATION \<longrightarrow>
        convertAmount e2 now2 200 USD SAR ''2024-06-01'' (after_first_call now (clock_upsert e)) =
          (Inr 750, after_first_call now (clock_upsert e)))"
proof -
  have reach: "reachesLimiter e now USD SAR ''2024-06-01'' (initial [])"
    by (simp add: reachesLimiter_def cacheHit_def cacheGet_def freshRow_def select_single_def
        initial_def)
  have admit: "length (shift_expired (clock_canMakeApiCall e) (API_CALLS (initial []))) < 30"
    by (simp add: initial_def)
  have gives: "providerGives e USD SAR 3.75"
    using assms by (simp add: providerGives_def)
  have "getExchangeRate e now USD SAR ''2024-06-01'' (initial []) =
      (Inr 3.75, after_first_call now (clock_upsert e))"
    using db
    by (simp add: getExchangeRate_provider [OF reach admit gives])
       (simp add: initial_def after_first_call_def sar_row_def upsert_payload_def upsert_def
         cachePut_def)
  then have first: "convertAmount e now 200 USD SAR ''2024-06-01'' (initial []) =
      (Inr 750, after_first_call now (clock_upsert e))"
    by (simp add: convertAmount_def)
  have second: "convertAmount e2 now2 200 USD SAR ''2024-06-01''
        (after_first_call now (clock_upsert e)) =
          (Inr 750, after_first_call now (clock_upsert e))"
    if "now2 - now < CACHE_EXPIRATION"
  proof -
    have "cacheGet (exchangeRatesCache (after_first_call now (clock_upsert e)))
        ''2024-06-01'' USD SAR = Some \<lparr>rate = 3.75, timestamp = now\<rparr>"
      by (simp add: after_first_call_def cacheGet_def)
    then have "getExchangeRate e2 now2 USD SAR ''2024-06-01''
        (after_first_call now (clock_upsert e)) =
          (Inr 3.75, after_first_call now (clock_upsert e))"
      using that getExchangeRate_hit [of USD SAR "after_first_call now (clock_upsert e)"
          "''2024-06-01''" "\<lparr>rate = 3.75, timestamp = now\<rparr>" now2 e2]
      by simp
    then show ?thesis by (simp add: convertAmount_def)
  qed
  from first second show ?thesis by blast
qed

theorem end_to_end_resolution_witness:
  "convertAmount (quiet_env 5000) 5000 200 USD SAR ''2024-06-01'' (initial []) =
      (Inr 750, after_first_call 5000 5000)
   \<and> convertAmount (quiet_env 3605000) 3605000 200 USD SAR ''2024-06-01''
        (after_first_call 5000 5000) = (Inr 750, after_first_call 5000 5000)"
proof -
  have prov: "provider (quiet_env 5000) USD =
      Resolves \<lparr>result = ''success'', error_type = [], conversion_rates = Some [SAR \<mapsto> 3.75]\<rparr>"
    by (simp add: quiet_env_def provider_SAR_def)
  have within: "(3605000::int) - 5000 < CACHE_EXPIRATION" by (simp add: CACHE_EXPIRATION_def)
  from end_to_end_resolution [OF prov, of "[SAR \<mapsto> 3.75]" 5000 3605000 "quiet_env 3605000"]
    within
  show ?thesis by (simp add: quiet_env_def)
qed

subsection \<open>C2: the freshness window of the cache\<close>

text \<open>
  C2. Let a call at time \<open>t0\<close> for two different currencies resolve a rate \<open>r\<close> (it was not
  answered by the cache, and returned \<open>r\<close>); rates are positive, and the cache check needs
  \<open>r\<close> truthy, that is \<open>r \<noteq> 0\<close>. Then a call at any time \<open>now\<close> with
  \<open>now - t0 < CACHE_EXPIRATION\<close>, in particular at \<open>t0\<close> + 5h59m, returns \<open>r\<close> and leaves
  the state unchanged: no table lookup and no fetch is logged. A call with
  \<open>now - t0 \<ge> CACHE_EXPIRATION\<close>, in particular at \<open>t0\<close> + 6h01m, is the \<^verbatim>\<open>try\<close> block run
  afresh: its answer is the one an empty cache would give, and the first request it logs is
  the table lookup. The test is made when the cache is read.
\<close>

theorem cache_freshness_window:
  assumes ft: "f \<noteq> t"
    and resolved: "\<not> cacheHit (exchangeRatesCache s0) t0 d f t"
    and first: "getExchangeRate e0 t0 f t d s0 = (Inr r, s1)"
    and nonzero: "r \<noteq> 0"
  shows "(now - t0 < CACHE_EXPIRATION \<longrightarrow> getExchangeRate e now f t d s1 = (Inr r, s1))
    \<and> getExchangeRate e (t0 + 21540000) f t d s1 = (Inr r, s1)
    \<and> (\<not> now - t0 < CACHE_EXPIRATION \<longrightarrow>
         getExchangeRate e now f t d s1 = tryCatch e now f t d s1
         \<and> fst (getExchangeRate e now f t d s1) =
             fst (getExchangeRate e now f t d (s1\<lparr>exchangeRatesCache := Map.empty\<rparr>))
         \<and> (\<exists>rest. io (snd (getExchangeRate e now f t d s1)) = io s1 @ DbSelect f t d # rest))
    \<and> (\<exists>rest. io (snd (getExchangeRate e (t0 + 21660000) f t d s1)) =
          io s1 @ DbSelect f t d # rest)"
proof -
  have cached: "cacheGet (exchangeRatesCache s1) d f t = Some \<lparr>rate = r, timestamp = t0\<rparr>"
    using ft resolved first by (rule resolved_is_cached)
  have fresh: "getExchangeRate e now' f t d s1 = (Inr r, s1)"
    if "now' - t0 < CACHE_EXPIRATION" for now'
    using getExchangeRate_hit [OF ft cached, of now' e] nonzero that by simp
  have expired: "getExchangeRate e now' f t d s1 = tryCatch e now' f t d s1
         \<and> fst (getExchangeRate e now' f t d s1) =
             fst (getExchangeRate e now' f t d (s1\<lparr>exchangeRatesCache := Map.empty\<rparr>))
         \<and> (\<exists>rest. io (snd (getExchangeRate e now' f t d s1)) = io s1 @ DbSelect f t d # rest)"
    if "\<not> now' - t0 < CACHE_EXPIRATION" for now'
  proof -
    have eq: "getExchangeRate e now' f t d s1 = tryCatch e now' f t d s1"
      using getExchangeRate_expired [OF ft cached, of now' e] that by simp
    have "fst (tryCatch e now' f t d (s1\<lparr>exchangeRatesCache := Map.empty\<rparr>)) =
        fst (tryCatch e now' f t d s1)"
      by (rule tryCatch_fst) simp_all
    then have "fst (getExchangeRate e now' f t d s1) =
        fst (getExchangeRate e now' f t d (s1\<lparr>exchangeRatesCache := Map.empty\<rparr>))"
      using ft by (simp add: eq getExchangeRate_empty_cache)
    with eq tryCatch_io [of e now' f t d s1] show ?thesis by simp
  qed
  have a: "(t0 + 21540000) - t0 < CACHE_EXPIRATION" by (simp add: CACHE_EXPIRATION_def)
  have b: "\<not> (t0 + 21660000) - t0 < CACHE_EXPIRATION" by (simp add: CACHE_EXPIRATION_def)
  from fresh [of now] fresh [OF a] expired [of now] expired [OF b] show ?thesis by blast
qed

lemma first_call_concrete:
  "getExchangeRate (quiet_env 5000) 5000 USD SAR ''2024-06-01'' (initial []) =
     (Inr 3.75, after_first_call 5000 5000)"
proof -
  have reach: "reachesLimiter (quiet_env 5000) 5000 USD SAR ''2024-06-01'' (initial [])"
    by (simp add: reachesLimiter_def cacheHit_def cacheGet_def freshRow_def select_single_def
        initial_def)
  have admit: "length (shift_expired (clock_canMakeApiCall (quiet_env 5000))
      (API_CALLS (initial []))) < 30"
    by (simp add: initial_def)
  have gives: "providerGives (quiet_env 5000) USD SAR 3.75"
    by (simp add: providerGives_def quiet_env_def provider_SAR_def)
  show ?thesis
    by (simp add: getExchangeRate_provider [OF reach admit gives])
       (simp add: initial_def after_first_call_def sar_row_def upsert_payload_def upsert_def
         cachePut_def quiet_env_def)
qed

theorem cache_freshness_window_witness:
  "getExchangeRate (quiet_env 21545000) 21545000 USD SAR ''2024-06-01''
      (after_first_call 5000 5000) = (Inr 3.75, after_first_call 5000 5000)
   \<and> (\<exists>rest. io (snd (getExchangeRate (quiet_env 21665000) 21665000 USD SAR ''2024-06-01''
        (after_first_call 5000 5000))) =
        io (after_first_call 5000 5000) @ DbSelect USD SAR ''2024-06-01'' # rest)"
proof -
  have ft: "USD \<noteq> SAR" by simp
  have resolved: "\<not> cacheHit (exchangeRatesCache (initial [])) 5000 ''2024-06-01'' USD SAR"
    by (simp add: cacheHit_def cacheGet_def initial_def)
  have nonzero: "(3.75::real) \<noteq> 0" by simp
  have a: "getExchangeRate (quiet_env 21545000) (5000 + 21540000) USD SAR ''2024-06-01''
      (after_first_call 5000 5000) = (Inr 3.75, after_first_call 5000 5000)"
    by (rule cache_freshness_window [OF ft resolved first_call_concrete nonzero,
      of 21545000 "quiet_env 21545000", THEN conjunct2, THEN conjunct1])
  have b: "\<exists>rest. io (snd (getExchangeRate (quiet_env 21665000) (5000 + 21660000) USD SAR
        ''2024-06-01'' (after_first_call 5000 5000))) =
        io (after_first_call 5000 5000) @ DbSelect USD SAR ''2024-06-01'' # rest"
    by (rule cache_freshness_window [OF ft resolved first_call_concrete nonzero,
      of 21665000 "quiet_env 21665000", THEN conjunct2, THEN conjunct2, THEN conjunct2])
  from a b show ?thesis by simp
qed

subsection \<open>C6: the write-back of a row found in the table\<close>

text \<open>
  C6, as the code has it. When the cache check fails and the table lookup finds a row with
  \<open>now - updated_at < CACHE_EXPIRATION\<close>, \<^verbatim>\<open>getExchangeRate\<close> returns the row's rate, logs
  only the lookup (the limiter and the provider are not touched, the table is unchanged),
  and writes the cache entry with the row's rate and the timestamp \<open>now\<close> of the call, not
  the row's \<open>updated_at\<close>.
\<close>

theorem store_hit_write_back:
  assumes "f \<noteq> t"
    and "\<not> cacheHit (exchangeRatesCache s) now d f t"
    and "select_single (select_error e) (exchange_rates s) f t d = Some row"
    and "now - updated_at row < CACHE_EXPIRATION"
  shows "getExchangeRate e now f t d s =
      (Inr (db_rate row),
       s\<lparr>io := io s @ [DbSelect f t d],
         exchangeRatesCache :=
           cachePut (exchangeRatesCache s) d f t \<lparr>rate = db_rate row, timestamp = now\<rparr>\<rparr>)
    \<and> cacheGet (exchangeRatesCache (snd (getExchangeRate e now f t d s))) d f t =
        Some \<lparr>rate = db_rate row, timestamp = now\<rparr>"
proof -
  from assms have "freshRow e now f t d s = Some row" by (simp add: freshRow_def)
  with assms show ?thesis by (simp add: getExchangeRate_store_hit)
qed

lemma recent_row_selected:
  "select_single (select_error (quiet_env 2000)) (exchange_rates (initial [recent_row]))
     USD SAR ''2024-06-01'' = Some recent_row"
  by (simp add: select_single_def has_key_def initial_def recent_row_def quiet_env_def)

lemma recent_row_call:
  "getExchangeRate (quiet_env 2000) 2000 USD SAR ''2024-06-01'' (initial [recent_row]) =
     (Inr 3.7,
      \<lparr>exchangeRatesCache =
         [''2024-06-01'' \<mapsto> [USD \<mapsto> [SAR \<mapsto> \<lparr>rate = 3.7, timestamp = 2000\<rparr>]]],
       API_CALLS = [], exchange_rates = [recent_row],
       io = [DbSelect USD SAR ''2024-06-01'']\<rparr>)"
proof -
  have ft: "USD \<noteq> SAR" by simp
  have miss: "\<not> cacheHit (exchangeRatesCache (initial [recent_row])) 2000 ''2024-06-01'' USD SAR"
    by (simp add: cacheHit_def cacheGet_def initial_def)
  have fresh: "freshRow (quiet_env 2000) 2000 USD SAR ''2024-06-01'' (initial [recent_row]) =
      Some recent_row"
    by (simp add: freshRow_def recent_row_selected)
       (simp add: recent_row_def CACHE_EXPIRATION_def)
  show ?thesis
    by (simp add: getExchangeRate_store_hit [OF ft miss fresh])
       (simp add: initial_def cachePut_def recent_row_def)
qed

theorem store_hit_write_back_witness:
  "getExchangeRate (quiet_env 2000) 2000 USD SAR ''2024-06-01'' (initial [recent_row]) =
     (Inr 3.7,
      \<lparr>exchangeRatesCache =
         [''2024-06-01'' \<mapsto> [USD \<mapsto> [SAR \<mapsto> \<lparr>rate = 3.7, timestamp = 2000\<rparr>]]],
       API_CALLS = [], exchange_rates = [recent_row],
       io = [DbSelect USD SAR ''2024-06-01'']\<rparr>)"
proof -
  have ft: "USD \<noteq> SAR" by simp
  have miss: "\<not> cacheHit (exchangeRatesCache (initial [recent_row])) 2000 ''2024-06-01'' USD SAR"
    by (simp add: cacheHit_def cacheGet_def initial_def)
  have fresh: "2000 - updated_at recent_row < CACHE_EXPIRATION"
    by (simp add: recent_row_def CACHE_EXPIRATION_def)
  from store_hit_write_back [OF ft miss recent_row_selected fresh]
  show ?thesis by (simp add: initial_def cachePut_def recent_row_def)
qed

text \<open>
  C6 as stated fails: a row updated at 1000 and read at 2000 is cached with the timestamp
  2000.
\<close>

theorem store_hit_timestamp_counterexample:
  "select_single False (exchange_rates (initial [recent_row])) USD SAR ''2024-06-01'' =
     Some recent_row
   \<and> updated_at recent_row = 1000
   \<and> cacheGet (exchangeRatesCache (snd (getExchangeRate (quiet_env 2000) 2000 USD SAR
        ''2024-06-01'' (initial [recent_row])))) ''2024-06-01'' USD SAR =
       Some \<lparr>rate = 3.7, timestamp = 2000\<rparr>
   \<and> map_option timestamp (cacheGet (exchangeRatesCache (snd (getExchangeRate (quiet_env 2000)
        2000 USD SAR ''2024-06-01'' (initial [recent_row])))) ''2024-06-01'' USD SAR) \<noteq>
       Some (updated_at recent_row)"
  using recent_row_selected
  by (simp add: recent_row_call cacheGet_def) (simp add: recent_row_def quiet_env_def)

subsection \<open>C4: when the rate-limit error is raised\<close>

text \<open>
  C4, as the code has it. \<^verbatim>\<open>getExchangeRate\<close> fails with the rate-limit error exactly when
  the currencies differ, the cache check fails, the table has no fresh row and the limiter
  denies. There is no fallback to a stale value: with a row in the table that is six hours
  old or older and a limiter that denies, the call fails with the rate-limit error.
\<close>

theorem rate_limit_failure_condition:
  "(fst (getExchangeRate e now f t d s) = Inl RateLimitExceeded) =
     (f \<noteq> t \<and> \<not> cacheHit (exchangeRatesCache s) now d f t
      \<and> freshRow e now f t d s = None
      \<and> 30 \<le> length (shift_expired (clock_canMakeApiCall e) (API_CALLS s)))
   \<and> (f \<noteq> t \<and> \<not> cacheHit (exchangeRatesCache s) now d f t
      \<and> select_single (select_error e) (exchange_rates s) f t d = Some row
      \<and> \<not> now - updated_at row < CACHE_EXPIRATION
      \<and> 30 \<le> length (shift_expired (clock_canMakeApiCall e) (API_CALLS s)) \<longrightarrow>
      fst (getExchangeRate e now f t d s) = Inl RateLimitExceeded)"
proof -
  have iff: "(fst (getExchangeRate e now f t d s) = Inl RateLimitExceeded) =
     (f \<noteq> t \<and> \<not> cacheHit (exchangeRatesCache s) now d f t
      \<and> freshRow e now f t d s = None
      \<and> 30 \<le> length (shift_expired (clock_canMakeApiCall e) (API_CALLS s)))"
    by (auto simp: getExchangeRate_rate_limit reachesLimiter_def tryAdmit_eq)
  have stale: "freshRow e now f t d s = None"
    if "select_single (select_error e) (exchange_rates s) f t d = Some row"
      and "\<not> now - updated_at row < CACHE_EXPIRATION"
    using that by (simp add: freshRow_def)
  from iff stale show ?thesis by blast
qed

lemma stale_row_selected:
  "select_single (select_error (quiet_env 30000000)) (exchange_rates busy_state)
     USD SAR ''2024-06-01'' = Some stale_row"
  by (simp add: select_single_def has_key_def busy_state_def stale_row_def quiet_env_def)

theorem rate_limit_failure_condition_witness:
  "fst (getExchangeRate (quiet_env 30000000) 30000000 USD SAR ''2024-06-01'' busy_state) =
     Inl RateLimitExceeded
   \<and> freshRow (quiet_env 30000000) 30000000 USD SAR ''2024-06-01'' busy_state = None"
proof -
  have ft: "USD \<noteq> SAR" by simp
  have miss: "\<not> cacheHit (exchangeRatesCache busy_state) 30000000 ''2024-06-01'' USD SAR"
    by (simp add: cacheHit_def cacheGet_def busy_state_def)
  have old: "\<not> 30000000 - updated_at stale_row < CACHE_EXPIRATION"
    by (simp add: stale_row_def CACHE_EXPIRATION_def)
  have full: "30 \<le> length (shift_expired (clock_canMakeApiCall (quiet_env 30000000))
      (API_CALLS busy_state))"
    by (simp add: quiet_env_def busy_state_def busy_state_shift)
  from rate_limit_failure_condition [of "quiet_env 30000000" 30000000 USD SAR
      "''2024-06-01''" busy_state stale_row] ft miss stale_row_selected old full
  show ?thesis by blast
qed

text \<open>
  C4 as stated fails: the table holds a row for the key, older than six hours, the limiter
  denies, and the call fails instead of returning the row's rate.
\<close>

theorem stale_fallback_counterexample:
  "select_single False (exchange_rates busy_state) USD SAR ''2024-06-01'' = Some stale_row
   \<and> 30000000 - updated_at stale_row > CACHE_EXPIRATION
   \<and> \<not> fst (canMakeApiCall 30000000 (API_CALLS busy_state))
   \<and> fst (getExchangeRate (quiet_env 30000000) 30000000 USD SAR ''2024-06-01'' busy_state) =
       Inl RateLimitExceeded
   \<and> fst (getExchangeRate (quiet_env 30000000) 30000000 USD SAR ''2024-06-01'' busy_state) \<noteq>
       Inr (db_rate stale_row)"
proof -
  have "select_single False (exchange_rates busy_state) USD SAR ''2024-06-01'' = Some stale_row"
    using stale_row_selected by (simp add: quiet_env_def)
  moreover have "30000000 - updated_at stale_row > CACHE_EXPIRATION"
    by (simp add: stale_row_def CACHE_EXPIRATION_def)
  moreover have "\<not> fst (canMakeApiCall 30000000 (API_CALLS busy_state))"
    by (simp add: canMakeApiCall_def busy_state_def busy_state_shift MAX_CALLS_PER_MINUTE_def)
  ultimately show ?thesis by (simp add: busy_state_denied)
qed

lemma fetchAndStore_Inl:
  "fst (fetchAndStore e now f t d s) = Inl x \<Longrightarrow>
   snd (fetchAndStore e now f t d s) = log_io (Fetch f) s"
  by (auto simp: fetchAndStore_def Let_def split: fetch_outcome.splits option.splits if_splits)

lemma admitAndFetch_Inl:
  assumes "fst (admitAndFetch e now f t d s) = Inl x"
  shows "exchangeRatesCache (snd (admitAndFetch e now f t d s)) = exchangeRatesCache s
    \<and> exchange_rates (snd (admitAndFetch e now f t d s)) = exchange_rates s"
proof (cases "length (shift_expired (clock_canMakeApiCall e) (API_CALLS s)) < 30")
  case True
  with assms show ?thesis by (simp add: admitAndFetch_admitted fetchAndStore_Inl)
next
  case False
  then show ?thesis by (simp add: admitAndFetch_denied)
qed

lemma tryBlock_Inl:
  assumes "fst (tryBlock e now f t d s) = Inl x"
  shows "exchangeRatesCache (snd (tryBlock e now f t d s)) = exchangeRatesCache s
    \<and> exchange_rates (snd (tryBlock e now f t d s)) = exchange_rates s"
proof (cases "freshRow e now f t d s")
  case None
  with assms admitAndFetch_Inl [of e now f t d "log_io (DbSelect f t d) s" x]
  show ?thesis by (simp add: tryBlock_not_fresh)
next
  case (Some row)
  with assms show ?thesis by (simp add: tryBlock_fresh)
qed

lemma tryCatch_eq:
  "tryCatch e now f t d s =
     (case fst (tryBlock e now f t d s) of
        Inl x \<Rightarrow> (Inl (rethrow x),
                  log_io (ConsoleError ''Error getting exchange rate:'')
                    (snd (tryBlock e now f t d s)))
      | Inr r \<Rightarrow> (Inr r, snd (tryBlock e now f t d s)))"
  by (cases "tryBlock e now f t d s") (simp add: tryCatch_def split: sum.splits)

lemma tryCatch_fst_eq:
  "fst (tryCatch e now f t d s) =
     (case fst (tryBlock e now f t d s) of Inl x \<Rightarrow> Inl (rethrow x) | Inr r \<Rightarrow> Inr r)"
  by (simp add: tryCatch_eq split: sum.splits)

lemma tryCatch_Inl:
  assumes "fst (tryCatch e now f t d s) = Inl err"
  shows "exchangeRatesCache (snd (tryCatch e now f t d s)) = exchangeRatesCache s
    \<and> exchange_rates (snd (tryCatch e now f t d s)) = exchange_rates s"
proof (cases "fst (tryBlock e now f t d s)")
  case (Inl x)
  then have "tryCatch e now f t d s =
      (Inl (rethrow x), log_io (ConsoleError ''Error getting exchange rate:'')
         (snd (tryBlock e now f t d s)))"
    by (simp add: tryCatch_eq)
  with tryBlock_Inl [OF Inl] show ?thesis by simp
next
  case (Inr r)
  then have "fst (tryCatch e now f t d s) = Inr r"
    by (simp add: tryCatch_fst_eq)
  with assms show ?thesis by simp
qed

lemma getExchangeRate_Inl:
  assumes "fst (getExchangeRate e now f t d s) = Inl err"
  shows "exchangeRatesCache (snd (getExchangeRate e now f t d s)) = exchangeRatesCache s
    \<and> exchange_rates (snd (getExchangeRate e now f t d s)) = exchange_rates s"
proof (cases "f \<noteq> t \<and> \<not> cacheHit (exchangeRatesCache s) now d f t")
  case True
  with assms show ?thesis by (simp add: getExchangeRate_miss tryCatch_Inl)
next
  case False
  with assms show ?thesis
    by (auto simp: getExchangeRate_def cacheHit_def split: option.splits if_splits)
qed

lemma getExchangeRate_admitted:
  assumes reach: "reachesLimiter e now f t d s"
    and admit: "length (shift_expired (clock_canMakeApiCall e) (API_CALLS s)) < 30"
  shows "fst (getExchangeRate e now f t d s) =
     (case fst (fetchAndStore e now f t d s) of Inl x \<Rightarrow> Inl (rethrow x) | Inr r \<Rightarrow> Inr r)"
proof -
  from reach have ft: "f \<noteq> t" and miss: "\<not> cacheHit (exchangeRatesCache s) now d f t"
    and nf: "freshRow e now f t d s = None"
    by (simp_all add: reachesLimiter_def)
  have "fst (tryBlock e now f t d s) =
      fst (fetchAndStore e now f t d
        ((log_io (DbSelect f t d) s)\<lparr>API_CALLS :=
            shift_expired (clock_canMakeApiCall e) (API_CALLS s) @ [now]\<rparr>))"
    using admit by (simp add: tryBlock_not_fresh [OF nf] admitAndFetch_admitted)
  also have "\<dots> = fst (fetchAndStore e now f t d s)" by (rule fetchAndStore_fst)
  finally have "fst (tryBlock e now f t d s) = fst (fetchAndStore e now f t d s)" .
  then have "fst (tryCatch e now f t d s) =
     (case fst (fetchAndStore e now f t d s) of Inl x \<Rightarrow> Inl (rethrow x) | Inr r \<Rightarrow> Inr r)"
    by (simp only: tryCatch_fst_eq)
  then show ?thesis using ft miss by (simp add: getExchangeRate_miss)
qed

subsection \<open>C5: how failures reach the caller\<close>

text \<open>
  C5, as the code has it. From \<^verbatim>\<open>getExchangeRate\<close> every failure of the resolution comes
  out as it was raised: the limiter's denial as the rate-limit error, an error payload as
  the API error with its \<^verbatim>\<open>error-type\<close>, a missing (or zero) target rate as the
  no-conversion-rate error, an \<^verbatim>\<open>Error\<close> of the runtime as itself, and a thrown value that is
  no \<^verbatim>\<open>Error\<close> as \<^verbatim>\<open>Failed to get exchange rate\<close>. \<^verbatim>\<open>convertAmount\<close> fails whenever
  \<^verbatim>\<open>getExchangeRate\<close> fails, but always with its own error \<^verbatim>\<open>Failed to convert amount\<close>,
  whatever the error was. A failed call returns no rate and leaves the cache and the table
  as they were; a call that succeeds with \<open>r\<close> converts to \<open>amount * r\<close>.
\<close>

theorem failure_propagation:
  "(reachesLimiter e now f t d s \<longrightarrow>
      (\<not> length (shift_expired (clock_canMakeApiCall e) (API_CALLS s)) < 30 \<longrightarrow>
         fst (getExchangeRate e now f t d s) = Inl RateLimitExceeded)
      \<and> (length (shift_expired (clock_canMakeApiCall e) (API_CALLS s)) < 30 \<longrightarrow>
           (provider e f = Resolves data \<and> result data = ''error'' \<longrightarrow>
              fst (getExchangeRate e now f t d s) = Inl (ApiError (error_type data)))
         \<and> (provider e f = Resolves data \<and> result data \<noteq> ''error''
              \<and> conversion_rates data = Some rates
              \<and> (rates t = None \<or> rates t = Some 0) \<longrightarrow>
              fst (getExchangeRate e now f t d s) = Inl (NoConversionRate t))
         \<and> (provider e f = Resolves data \<and> result data \<noteq> ''error''
              \<and> conversion_rates data = None \<longrightarrow>
              fst (getExchangeRate e now f t d s) = Inl TypeError)
         \<and> (provider e f = RejectsError msg \<longrightarrow>
              fst (getExchangeRate e now f t d s) = Inl (Foreign msg))
         \<and> (provider e f = RejectsOther \<longrightarrow>
              fst (getExchangeRate e now f t d s) = Inl FailedToGetExchangeRate)))
   \<and> (fst (getExchangeRate e now f t d s) = Inl err \<longrightarrow>
        fst (convertAmount e now amount f t d s) = Inl FailedToConvertAmount
        \<and> exchangeRatesCache (snd (getExchangeRate e now f t d s)) = exchangeRatesCache s
        \<and> exchange_rates (snd (getExchangeRate e now f t d s)) = exchange_rates s)
   \<and> (fst (getExchangeRate e now f t d s) = Inr r \<longrightarrow>
        fst (convertAmount e now amount f t d s) = Inr (amount * r))"
proof -
  have denied: "fst (getExchangeRate e now f t d s) = Inl RateLimitExceeded"
    if "reachesLimiter e now f t d s"
      and "\<not> length (shift_expired (clock_canMakeApiCall e) (API_CALLS s)) < 30"
    using that by (simp add: getExchangeRate_rate_limit tryAdmit_eq)
  have admitted: "(provider e f = Resolves data \<and> result data = ''error'' \<longrightarrow>
              fst (getExchangeRate e now f t d s) = Inl (ApiError (error_type data)))
         \<and> (provider e f = Resolves data \<and> result data \<noteq> ''error''
              \<and> conversion_rates data = Some rates
              \<and> (rates t = None \<or> rates t = Some 0) \<longrightarrow>
              fst (getExchangeRate e now f t d s) = Inl (NoConversionRate t))
         \<and> (provider e f = Resolves data \<and> result data \<noteq> ''error''
              \<and> conversion_rates data = None \<longrightarrow>
              fst (getExchangeRate e now f t d s) = Inl TypeError)
         \<and> (provider e f = RejectsError msg \<longrightarrow>
              fst (getExchangeRate e now f t d s) = Inl (Foreign msg))
         \<and> (provider e f = RejectsOther \<longrightarrow>
              fst (getExchangeRate e now f t d s) = Inl FailedToGetExchangeRate)"
    if "reachesLimiter e now f t d s"
      and "length (shift_expired (clock_canMakeApiCall e) (API_CALLS s)) < 30"
    by (auto simp: getExchangeRate_admitted [OF that] fetchAndStore_def Let_def rethrow_def)
  have failed: "fst (convertAmount e now amount f t d s) = Inl FailedToConvertAmount
        \<and> exchangeRatesCache (snd (getExchangeRate e now f t d s)) = exchangeRatesCache s
        \<and> exchange_rates (snd (getExchangeRate e now f t d s)) = exchange_rates s"
    if "fst (getExchangeRate e now f t d s) = Inl err"
    using that getExchangeRate_Inl [OF that] by (simp add: convertAmount_fst)
  have ok: "fst (convertAmount e now amount f t d s) = Inr (amount * r)"
    if "fst (getExchangeRate e now f t d s) = Inr r"
    using that by (simp add: convertAmount_fst)
  from denied admitted failed ok show ?thesis by blast
qed

theorem failure_propagation_witness:
  "fst (getExchangeRate (quiet_env 30000000) 30000000 USD SAR ''2024-06-01'' busy_state) =
     Inl RateLimitExceeded
   \<and> fst (convertAmount (quiet_env 30000000) 30000000 200 USD SAR ''2024-06-01'' busy_state) =
     Inl FailedToConvertAmount
   \<and> fst (getExchangeRate (error_env 5000) 5000 USD SAR ''2024-06-01'' (initial [])) =
     Inl (ApiError ''quota-reached'')
   \<and> fst (convertAmount (error_env 5000) 5000 200 USD SAR ''2024-06-01'' (initial [])) =
     Inl FailedToConvertAmount
   \<and> exchangeRatesCache (snd (getExchangeRate (error_env 5000) 5000 USD SAR ''2024-06-01''
       (initial []))) = Map.empty
   \<and> fst (getExchangeRate (answering_env 5000 (Resolves egp_only)) 5000 USD SAR ''2024-06-01''
       (initial [])) = Inl (NoConversionRate SAR)
   \<and> fst (getExchangeRate (answering_env 5000 (Resolves no_rates)) 5000 USD SAR ''2024-06-01''
       (initial [])) = Inl TypeError
   \<and> fst (getExchangeRate (answering_env 5000 (RejectsError ''Network request failed''))
       5000 USD SAR ''2024-06-01'' (initial [])) = Inl (Foreign ''Network request failed'')
   \<and> fst (getExchangeRate (answering_env 5000 RejectsOther) 5000 USD SAR ''2024-06-01''
       (initial [])) = Inl FailedToGetExchangeRate
   \<and> fst (convertAmount (quiet_env 5000) 5000 200 USD SAR ''2024-06-01'' (initial [])) =
       Inr 750"
proof -
  have ft: "USD \<noteq> SAR" by simp
  note reach = initial_reachesLimiter [OF ft]
  have full: "\<not> length (shift_expired (clock_canMakeApiCall (quiet_env 30000000))
      (API_CALLS busy_state)) < 30"
    by (simp add: quiet_env_def busy_state_def busy_state_shift)
  have denied: "fst (getExchangeRate (quiet_env 30000000) 30000000 USD SAR ''2024-06-01''
      busy_state) = Inl RateLimitExceeded"
    using failure_propagation [where e = "quiet_env 30000000" and now = 30000000 and f = USD
        and t = SAR and d = "''2024-06-01''" and s = busy_state and data = no_rates
        and rates = Map.empty and msg = "[]" and err = TypeError and amount = 200 and r = 0]
      busy_state_reachesLimiter full
    by simp
  have denied': "fst (convertAmount (quiet_env 30000000) 30000000 200 USD SAR ''2024-06-01''
      busy_state) = Inl FailedToConvertAmount"
    using failure_propagation [where e = "quiet_env 30000000" and now = 30000000 and f = USD
        and t = SAR and d = "''2024-06-01''" and s = busy_state and data = no_rates
        and rates = Map.empty and msg = "[]" and err = RateLimitExceeded and amount = 200
        and r = 0] denied
    by simp
  have prov: "provider (error_env 5000) USD =
      Resolves \<lparr>result = ''error'', error_type = ''quota-reached'', conversion_rates = None\<rparr>
    \<and> result \<lparr>result = ''error'', error_type = ''quota-reached'',
        conversion_rates = None\<rparr> = ''error''"
    by (simp add: error_env_def)
  have payload: "fst (getExchangeRate (error_env 5000) 5000 USD SAR ''2024-06-01''
      (initial [])) = Inl (ApiError ''quota-reached'')"
    using failure_propagation [where e = "error_env 5000" and now = 5000 and f = USD
        and t = SAR and d = "''2024-06-01''" and s = "initial []" and data =
        "\<lparr>result = ''error'', error_type = ''quota-reached'', conversion_rates = None\<rparr>"
        and rates = Map.empty and msg = "[]" and err = TypeError and amount = 200 and r = 0]
      reach initial_admits prov
    by simp
  have payload': "fst (convertAmount (error_env 5000) 5000 200 USD SAR ''2024-06-01''
      (initial [])) = Inl FailedToConvertAmount
     \<and> exchangeRatesCache (snd (getExchangeRate (error_env 5000) 5000 USD SAR ''2024-06-01''
       (initial []))) = exchangeRatesCache (initial [])"
    using failure_propagation [where e = "error_env 5000" and now = 5000 and f = USD
        and t = SAR and d = "''2024-06-01''" and s = "initial []" and data = no_rates
        and rates = Map.empty and msg = "[]" and err = "ApiError ''quota-reached''"
        and amount = 200 and r = 0] payload
    by simp
  have missing: "fst (getExchangeRate (answering_env 5000 (Resolves egp_only)) 5000 USD SAR
      ''2024-06-01'' (initial [])) = Inl (NoConversionRate SAR)"
  proof -
    have "provider (answering_env 5000 (Resolves egp_only)) USD = Resolves egp_only
        \<and> result egp_only \<noteq> ''error''
        \<and> conversion_rates egp_only = Some [EGP \<mapsto> 47.5]
        \<and> ([EGP \<mapsto> 47.5] SAR = None \<or> [EGP \<mapsto> 47.5] SAR = Some (0::real))"
      by (simp add: answering_env_def egp_only_def)
    with failure_propagation [where e = "answering_env 5000 (Resolves egp_only)"
        and now = 5000 and f = USD and t = SAR and d = "''2024-06-01''" and s = "initial []"
        and data = egp_only and rates = "[EGP \<mapsto> 47.5]" and msg = "[]" and err = TypeError
        and amount = 200 and r = 0] reach initial_admits
    show ?thesis by simp
  qed
  have undefined_rates: "fst (getExchangeRate (answering_env 5000 (Resolves no_rates)) 5000
      USD SAR ''2024-06-01'' (initial [])) = Inl TypeError"
  proof -
    have "provider (answering_env 5000 (Resolves no_rates)) USD = Resolves no_rates
        \<and> result no_rates \<noteq> ''error'' \<and> conversion_rates no_rates = None"
      by (simp add: answering_env_def no_rates_def)
    with failure_propagation [where e = "answering_env 5000 (Resolves no_rates)"
        and now = 5000 and f = USD and t = SAR and d = "''2024-06-01''" and s = "initial []"
        and data = no_rates and rates = Map.empty and msg = "[]" and err = TypeError
        and amount = 200 and r = 0] reach initial_admits
    show ?thesis by simp
  qed
  have rejected: "fst (getExchangeRate (answering_env 5000
      (RejectsError ''Network request failed'')) 5000 USD SAR ''2024-06-01'' (initial [])) =
      Inl (Foreign ''Network request failed'')"
  proof -
    have "provider (answering_env 5000 (RejectsError ''Network request failed'')) USD =
        RejectsError ''Network request failed''"
      by (simp add: answering_env_def)
    with failure_propagation [where e =
        "answering_env 5000 (RejectsError ''Network request failed'')"
        and now = 5000 and f = USD and t = SAR and d = "''2024-06-01''" and s = "initial []"
        and data = no_rates and rates = Map.empty and msg = "''Network request failed''"
        and err = TypeError and amount = 200 and r = 0] reach initial_admits
    show ?thesis by simp
  qed
  have other: "fst (getExchangeRate (answering_env 5000 RejectsOther) 5000 USD SAR
      ''2024-06-01'' (initial [])) = Inl FailedToGetExchangeRate"
  proof -
    have "provider (answering_env 5000 RejectsOther) USD = RejectsOther"
      by (simp add: answering_env_def)
    with failure_propagation [where e = "answering_env 5000 RejectsOther"
        and now = 5000 and f = USD and t = SAR and d = "''2024-06-01''" and s = "initial []"
        and data = no_rates and rates = Map.empty and msg = "[]" and err = TypeError
        and amount = 200 and r = 0] reach initial_admits
    show ?thesis by simp
  qed
  have good: "fst (convertAmount (quiet_env 5000) 5000 200 USD SAR ''2024-06-01''
      (initial [])) = Inr 750"
  proof -
    have "fst (getExchangeRate (quiet_env 5000) 5000 USD SAR ''2024-06-01'' (initial [])) =
        Inr 3.75"
      by (simp add: first_call_concrete)
    with failure_propagation [where e = "quiet_env 5000" and now = 5000 and f = USD
        and t = SAR and d = "''2024-06-01''" and s = "initial []" and data = no_rates
        and rates = Map.empty and msg = "[]" and err = TypeError and amount = 200
        and r = "3.75"]
    show ?thesis by simp
  qed
  from denied denied' payload payload' missing undefined_rates rejected other good
  show ?thesis by (simp add: initial_def)
qed

text \<open>
  C5 as stated fails: on a denial \<^verbatim>\<open>getExchangeRate\<close> raises the rate-limit error and
  \<^verbatim>\<open>convertAmount\<close> raises another one.
\<close>

theorem convertAmount_error_counterexample:
  "fst (getExchangeRate (quiet_env 30000000) 30000000 USD SAR ''2024-06-01'' busy_state) =
     Inl RateLimitExceeded
   \<and> fst (convertAmount (quiet_env 30000000) 30000000 200 USD SAR ''2024-06-01'' busy_state) =
     Inl FailedToConvertAmount
   \<and> fst (convertAmount (quiet_env 30000000) 30000000 200 USD SAR ''2024-06-01'' busy_state) \<noteq>
     fst (getExchangeRate (quiet_env 30000000) 30000000 USD SAR ''2024-06-01'' busy_state)"
  by (simp add: convertAmount_fst busy_state_denied)

subsection \<open>C7: two upserts of one key\<close>

lemma has_key_key_of: "has_key f t d r = (key_of r = (f, t, d))"
  by (auto simp: has_key_def key_of_def)

lemma has_key_new: "key_of new = (f, t, d) \<Longrightarrow>
    has_key (from_currency new) (to_currency new) (date new) = has_key f t d"
  by (simp add: key_of_def)

lemma list_ex_has_key: "list_ex (has_key f t d) rows = ((f, t, d) \<in> set (map key_of rows))"
  by (induction rows) (auto simp: has_key_key_of)

lemma filter_absent: "\<not> list_ex P rows \<Longrightarrow> filter P rows = []"
  by (induction rows) auto

lemma unique_keys_filter:
  "unique_keys rows \<Longrightarrow> list_ex (has_key f t d) rows \<Longrightarrow>
   \<exists>r. filter (has_key f t d) rows = [r] \<and> key_of r = (f, t, d)"
proof (induction rows)
  case Nil
  then show ?case by simp
next
  case (Cons x xs)
  show ?case
  proof (cases "has_key f t d x")
    case True
    then have kx: "key_of x = (f, t, d)" by (simp add: has_key_key_of)
    with Cons.prems have "(f, t, d) \<notin> set (map key_of xs)"
      by (auto simp: unique_keys_def)
    then have "filter (has_key f t d) xs = []"
      by (simp only: filter_absent list_ex_has_key not_False_eq_True)
    with True kx show ?thesis by simp
  next
    case False
    with Cons show ?thesis by (simp add: unique_keys_def)
  qed
qed

text \<open>The update of the conflict branch of \<open>upsert\<close>.\<close>

lemma upsert_present:
  assumes "key_of new = (f, t, d)" and "list_ex (has_key f t d) rows"
  shows "upsert dbnow new rows =
     map (\<lambda>r. if has_key f t d r then r\<lparr>db_rate := db_rate new, updated_at := dbnow\<rparr> else r) rows"
  using assms by (simp add: upsert_def has_key_new)

lemma upsert_absent:
  assumes "key_of new = (f, t, d)" and "\<not> list_ex (has_key f t d) rows"
  shows "upsert dbnow new rows = rows @ [new]"
  using assms by (simp add: upsert_def has_key_new)

lemma key_of_update [simp]: "key_of (r\<lparr>db_rate := x, updated_at := y\<rparr>) = key_of r"
  by (simp add: key_of_def)

lemma has_key_update [simp]:
  "has_key f t d (r\<lparr>db_rate := x, updated_at := y\<rparr>) = has_key f t d r"
  by (simp add: has_key_def)

lemma filter_updated:
  "filter (has_key f t d)
     (map (\<lambda>r. if has_key f t d r then r\<lparr>db_rate := x, updated_at := y\<rparr> else r) rows) =
   map (\<lambda>r. r\<lparr>db_rate := x, updated_at := y\<rparr>) (filter (has_key f t d) rows)"
  by (induction rows) auto

lemma keys_updated:
  "map key_of
     (map (\<lambda>r. if has_key f t d r then r\<lparr>db_rate := x, updated_at := y\<rparr> else r) rows) =
   map key_of rows"
  by (induction rows) auto

lemma upsert_unique:
  assumes "unique_keys rows"
  shows "unique_keys (upsert dbnow new rows)"
proof -
  obtain f t d where k: "key_of new = (f, t, d)" by (cases "key_of new")
  show ?thesis
  proof (cases "list_ex (has_key f t d) rows")
    case True
    from assms have "distinct (map key_of rows)" by (simp only: unique_keys_def)
    then have "distinct (map key_of (upsert dbnow new rows))"
      by (simp only: upsert_present [OF k True] keys_updated)
    then show ?thesis by (simp only: unique_keys_def)
  next
    case False
    then have "(f, t, d) \<notin> set (map key_of rows)" by (simp add: list_ex_has_key)
    with assms show ?thesis
      by (simp add: upsert_absent [OF k False] unique_keys_def k)
  qed
qed

lemma upsert_has_key:
  assumes k: "key_of new = (f, t, d)"
  shows "list_ex (has_key f t d) (upsert dbnow new rows)"
proof (cases "list_ex (has_key f t d) rows")
  case True
  then have "(f, t, d) \<in> set (map key_of rows)" by (simp only: list_ex_has_key)
  then have "(f, t, d) \<in> set (map key_of (upsert dbnow new rows))"
    by (simp only: upsert_present [OF k True] keys_updated)
  then show ?thesis by (simp only: list_ex_has_key)
next
  case False
  show ?thesis using k by (simp add: upsert_absent [OF k False] has_key_key_of)
qed

text \<open>
  C7, as the code has it. On a table that satisfies the uniqueness constraint, two upserts
  in a row for the key \<open>(f, t, d)\<close> leave exactly one row of that key, with the rate of the
  second write; the second upsert adds no row and the constraint still holds. The row's
  \<open>updated_at\<close> is the database's clock at the second write, which the update trigger
  puts in the place of the value the writer sent.
\<close>

theorem upsert_last_write_wins:
  assumes uniq: "unique_keys rows"
    and k1: "key_of row_a = (f, t, d)" and k2: "key_of row_b = (f, t, d)"
  shows "filter (has_key f t d) (upsert dbnow_b row_b (upsert dbnow_a row_a rows)) =
      [\<lparr>from_currency = f, to_currency = t, date = d, db_rate = db_rate row_b,
        updated_at = dbnow_b\<rparr>]
    \<and> length (upsert dbnow_b row_b (upsert dbnow_a row_a rows)) =
        length (upsert dbnow_a row_a rows)
    \<and> unique_keys (upsert dbnow_b row_b (upsert dbnow_a row_a rows))"
proof -
  let ?rows1 = "upsert dbnow_a row_a rows"
  have u1: "unique_keys ?rows1" using uniq by (rule upsert_unique)
  have p1: "list_ex (has_key f t d) ?rows1" using k1 by (rule upsert_has_key)
  from unique_keys_filter [OF u1 p1] obtain r1
    where r1: "filter (has_key f t d) ?rows1 = [r1]" and kr1: "key_of r1 = (f, t, d)"
    by blast
  have second: "upsert dbnow_b row_b ?rows1 =
     map (\<lambda>r. if has_key f t d r then r\<lparr>db_rate := db_rate row_b, updated_at := dbnow_b\<rparr> else r)
       ?rows1"
    using k2 p1 by (rule upsert_present)
  have "r1\<lparr>db_rate := db_rate row_b, updated_at := dbnow_b\<rparr> =
      \<lparr>from_currency = f, to_currency = t, date = d, db_rate = db_rate row_b,
       updated_at = dbnow_b\<rparr>"
    using kr1 by (cases r1) (simp add: key_of_def)
  then have "filter (has_key f t d) (upsert dbnow_b row_b ?rows1) =
      [\<lparr>from_currency = f, to_currency = t, date = d, db_rate = db_rate row_b,
        updated_at = dbnow_b\<rparr>]"
    by (simp only: second filter_updated r1 list.map)
  moreover have "length (upsert dbnow_b row_b ?rows1) = length ?rows1"
    by (simp only: second length_map)
  moreover have "unique_keys (upsert dbnow_b row_b ?rows1)" using u1 by (rule upsert_unique)
  ultimately show ?thesis by blast
qed

theorem upsert_last_write_wins_witness:
  "filter (has_key USD EGP ''2024-05-01'')
     (upsert 2040 (egp_write 47.9 2000) (upsert 1040 (egp_write 47.5 1000) [])) =
     [\<lparr>from_currency = USD, to_currency = EGP, date = ''2024-05-01'', db_rate = 47.9,
       updated_at = 2040\<rparr>]
   \<and> length (upsert 2040 (egp_write 47.9 2000) (upsert 1040 (egp_write 47.5 1000) [])) = 1"
proof -
  have uniq: "unique_keys []" by (simp add: unique_keys_def)
  have k: "key_of (egp_write r sent) = (USD, EGP, ''2024-05-01'')" for r sent
    by (simp add: key_of_def egp_write_def)
  from upsert_last_write_wins [OF uniq k [of "47.5" 1000] k [of "47.9" 2000],
      where dbnow_a = 1040 and dbnow_b = 2040]
  show ?thesis by (simp add: egp_write_def upsert_def has_key_def)
qed

text \<open>
  C7 as stated fails: the second write sends \<open>updated_at = 2000\<close> and the row is left with
  the database's 2040.
\<close>

theorem upsert_timestamp_counterexample:
  "map updated_at (filter (has_key USD EGP ''2024-05-01'')
     (upsert 2040 (egp_write 47.9 2000) (upsert 1040 (egp_write 47.5 1000) []))) = [2040]
   \<and> updated_at (egp_write 47.9 2000) = 2000
   \<and> map updated_at (filter (has_key USD EGP ''2024-05-01'')
     (upsert 2040 (egp_write 47.9 2000) (upsert 1040 (egp_write 47.5 1000) []))) \<noteq>
       [updated_at (egp_write 47.9 2000)]"
  by (simp add: upsert_def egp_write_def has_key_def)

end
